theory Spec2Isabelle
  imports Complex_Main "HOL-Library.Sublist" "HOL-Library.Char_ord" "HOL-Library.List_Lexorder"
begin

section \<open>Data model of \<^verbatim>\<open>server.ts\<close>\<close>

text \<open>
  The three tables of \<^verbatim>\<open>traffic.db\<close> are lists of rows, in rowid order (a row is
  appended by every INSERT, and no statement of the server deletes a row).

  A \<^verbatim>\<open>timestamp\<close> column holds the text \<^verbatim>\<open>YYYY-MM-DD HH:MM:SS\<close> (UTC) that
  \<^verbatim>\<open>CURRENT_TIMESTAMP\<close> produces. It is represented by the number of seconds since the
  epoch that the text denotes: two such texts compare (as SQLite compares them, byte by
  byte) the way their seconds do, \<^verbatim>\<open>datetime('now', '-24 hours')\<close> subtracts 86400
  seconds, and \<^verbatim>\<open>strftime('%Y-%m-%d %H:00:00', t)\<close> names the hour that starts at
  second \<open>t - t mod 3600\<close>.

  The INTEGER columns are unbounded integers: the 64-bit overflow of a SUM is out of reach
  of the byte counts the generator writes (each below 550000).
\<close>

record traffic_log =
  log_id :: int
  timestamp :: int
  source_ip :: string
  destination_ip :: string
  domain :: string
  protocol :: string
  upload_bytes :: int
  download_bytes :: int

record user_row =
  user_id :: int
  username :: string
  email :: string
  password_hash :: string

text \<open>
  A value of JavaScript, as a handler finds it in the body of a request or reads it from
  a row: absent (\<^verbatim>\<open>undefined\<close>), null, a boolean, a number or a string. A number is a
  finite double, given by the real that it is, or one of the two infinities. In the
  body that a client posts, a number is the real that its text denotes, before
  \<^verbatim>\<open>express.json()\<close> makes a double of it. Arrays and objects are not among the values.
  \<open>truthy\<close> is the truth value of a value in a condition (\<^verbatim>\<open>alerts_enabled ? 1 : 0\<close>),
  \<open>js_typeof\<close> its \<^verbatim>\<open>typeof\<close>.
\<close>

datatype js_value =
  JUndefined | JNull | JBool bool | JNum real | JInfinity | JNegInfinity | JStr string

fun truthy :: "js_value \<Rightarrow> bool" where
  "truthy JUndefined = False"
| "truthy JNull = False"
| "truthy (JBool b) = b"
| "truthy (JNum x) = (x \<noteq> 0)"
| "truthy JInfinity = True"
| "truthy JNegInfinity = True"
| "truthy (JStr s) = (s \<noteq> [])"

fun js_typeof :: "js_value \<Rightarrow> string" where
  "js_typeof JUndefined = ''undefined''"
| "js_typeof JNull = ''object''"
| "js_typeof (JBool b) = ''boolean''"
| "js_typeof (JStr s) = ''string''"
| "js_typeof v = ''number''"

datatype js_error = Error string | TypeError string

text \<open>
  \<^verbatim>\<open>data_limit_gb REAL\<close> holds what the GET reads from it: null, a number, or a string
  (a text that the column does not take for a number);
  \<^verbatim>\<open>alerts_enabled INTEGER\<close> holds the 1 or 0 that the POST handler computes.
\<close>

record settings_row =
  settings_id :: int
  data_limit_gb :: js_value
  alerts_enabled :: int

record db =
  users :: "user_row list"
  traffic_logs :: "traffic_log list"
  settings :: "settings_row list"

definition empty_db :: db where
  "empty_db = \<lparr>users = [], traffic_logs = [], settings = []\<rparr>"

text \<open>
  \<^verbatim>\<open>INSERT OR IGNORE INTO settings (id, data_limit_gb, alerts_enabled) VALUES (1, 100, 1)\<close>:
  the row is added unless a row with the primary key 1 is there already.
\<close>

definition db_init :: "db \<Rightarrow> db" where
  "db_init d =
     (if \<exists>r \<in> set (settings d). settings_id r = 1 then d
      else d\<lparr>settings := settings d @
             [\<lparr>settings_id = 1, data_limit_gb = JNum 100, alerts_enabled = 1\<rparr>]\<rparr>)"

text \<open>AUTOINCREMENT: the new rowid is one more than the largest rowid there has been.\<close>

definition next_rowid :: "int list \<Rightarrow> int" where
  "next_rowid ids = foldr max ids 0 + 1"

section \<open>The aggregation queries\<close>

text \<open>\<^verbatim>\<open>SUM(e)\<close> is NULL over no rows, and the sum otherwise; \<^verbatim>\<open>COUNT(*)\<close> is the number of rows.\<close>

definition sql_sum :: "int list \<Rightarrow> int option" where
  "sql_sum xs = (if xs = [] then None else Some (sum_list xs))"

record stats =
  total_upload :: "int option"
  total_download :: "int option"
  total_packets :: nat

text \<open>\<^verbatim>\<open>WHERE timestamp > datetime('now', '-30 days')\<close>, with \<open>now\<close> the clock of the query.\<close>

definition in_last_30_days :: "int \<Rightarrow> traffic_log \<Rightarrow> bool" where
  "in_last_30_days now r \<longleftrightarrow> timestamp r > now - 30 * 86400"

definition summary_stats :: "int \<Rightarrow> traffic_log list \<Rightarrow> stats" where
  "summary_stats now logs =
     (let rows = filter (in_last_30_days now) logs
      in \<lparr>total_upload = sql_sum (map upload_bytes rows),
          total_download = sql_sum (map download_bytes rows),
          total_packets = length rows\<rparr>)"

text \<open>
  \<^verbatim>\<open>SELECT domain, SUM(upload_bytes + download_bytes) as total_bytes FROM traffic_logs
  GROUP BY domain ORDER BY total_bytes DESC LIMIT 5\<close>.

  SQL leaves open in which order GROUP BY yields its groups and in which order ORDER BY
  leaves rows of equal key. SQLite, the engine behind \<^verbatim>\<open>better-sqlite3\<close>, sorts the
  rows on the GROUP BY column to form the groups, here in the direction of the one-term
  ORDER BY (descending), and its ORDER BY keeps rows of equal key in the order in which
  they reach it. The model follows the engine: \<open>group_domains\<close> is the order of the groups,
  and \<open>order_by_total_desc\<close> is a stable insertion sort.
\<close>

record domain_total =
  dt_domain :: string
  total_bytes :: int

definition group_domains :: "traffic_log list \<Rightarrow> string list" where
  "group_domains logs = rev (sort (remdups (map domain logs)))"

definition domain_group :: "traffic_log list \<Rightarrow> string \<Rightarrow> domain_total" where
  "domain_group logs d =
     \<lparr>dt_domain = d,
      total_bytes = sum_list (map (\<lambda>r. upload_bytes r + download_bytes r)
                                  (filter (\<lambda>r. domain r = d) logs))\<rparr>"

definition domain_groups :: "traffic_log list \<Rightarrow> domain_total list" where
  "domain_groups logs = map (domain_group logs) (group_domains logs)"

fun insert_desc :: "domain_total \<Rightarrow> domain_total list \<Rightarrow> domain_total list" where
  "insert_desc g [] = [g]"
| "insert_desc g (h # hs) =
     (if total_bytes h < total_bytes g then g # h # hs else h # insert_desc g hs)"

definition order_by_total_desc :: "domain_total list \<Rightarrow> domain_total list" where
  "order_by_total_desc gs = foldl (\<lambda>acc g. insert_desc g acc) [] gs"

definition topDomains :: "traffic_log list \<Rightarrow> domain_total list" where
  "topDomains logs = take 5 (order_by_total_desc (domain_groups logs))"

text \<open>
  \<^verbatim>\<open>SELECT protocol, COUNT(*) as count FROM traffic_logs GROUP BY protocol\<close>: the groups
  come in ascending order of the protocol.
\<close>

definition protocolStats :: "traffic_log list \<Rightarrow> (string \<times> nat) list" where
  "protocolStats logs =
     map (\<lambda>p. (p, length (filter (\<lambda>r. protocol r = p) logs)))
         (sort (remdups (map protocol logs)))"

text \<open>
  \<^verbatim>\<open>SELECT strftime('%Y-%m-%d %H:00:00', timestamp) as hour, SUM(upload_bytes) as upload,
  SUM(download_bytes) as download FROM traffic_logs
  WHERE timestamp > datetime('now', '-24 hours') GROUP BY hour ORDER BY hour ASC\<close>.
\<close>

definition hour_of :: "int \<Rightarrow> int" where
  "hour_of t = t - t mod 3600"

definition in_last_24_hours :: "int \<Rightarrow> traffic_log \<Rightarrow> bool" where
  "in_last_24_hours now r \<longleftrightarrow> timestamp r > now - 86400"

record bucket =
  hour :: int
  upload :: "int option"
  download :: "int option"

definition hour_bucket :: "traffic_log list \<Rightarrow> int \<Rightarrow> bucket" where
  "hour_bucket rows h =
     (let grp = filter (\<lambda>r. hour_of (timestamp r) = h) rows
      in \<lparr>hour = h, upload = sql_sum (map upload_bytes grp),
          download = sql_sum (map download_bytes grp)\<rparr>)"

definition history :: "int \<Rightarrow> traffic_log list \<Rightarrow> bucket list" where
  "history now logs =
     (let rows = filter (in_last_24_hours now) logs
      in map (hour_bucket rows) (sort (remdups (map (\<lambda>r. hour_of (timestamp r)) rows))))"

section \<open>Requests, responses and the libraries\<close>

text \<open>
  The claims of a token. \<^verbatim>\<open>jwt.sign(payload, secret, options)\<close> of the
  \<^verbatim>\<open>jsonwebtoken\<close> package adds the issue time \<^verbatim>\<open>iat\<close>, and an expiry
  \<^verbatim>\<open>exp = iat + expiresIn\<close> only when the option \<^verbatim>\<open>expiresIn\<close> is given;
  \<^verbatim>\<open>jwt.verify(token, secret)\<close> checks the signature and then, when the token has an
  \<^verbatim>\<open>exp\<close>, that the clock has not reached it.
\<close>

record claims =
  claim_id :: int
  claim_username :: string
  claim_iat :: int
  claim_exp :: "int option"

text \<open>
  The packages the server calls are parameters: the serialisation and signature of a
  token (\<open>jwt_encode\<close>, and \<open>jwt_decode\<close>, which is \<open>None\<close> for a malformed token or a
  signature that does not match the secret); the password hash of \<^verbatim>\<open>bcryptjs\<close>
  (\<open>bcrypt_hash\<close> takes the password and the salt the package draws); the double that
  the parser of JSON makes of a number within the range of the doubles (\<open>to_double\<close>);
  and two conversions of the database engine: the number that a column of REAL affinity
  makes of a text that looks like one (\<open>sql_numeric\<close>), and the text that a number is
  when it is compared with a TEXT column (\<open>sql_text\<close>).
\<close>

record extern =
  jwt_encode :: "claims \<Rightarrow> string \<Rightarrow> string"
  jwt_decode :: "string \<Rightarrow> string \<Rightarrow> claims option"
  bcrypt_hash :: "string \<Rightarrow> string \<Rightarrow> string"
  bcrypt_compare :: "string \<Rightarrow> string \<Rightarrow> bool"
  to_double :: "real \<Rightarrow> real"
  sql_numeric :: "string \<Rightarrow> js_value option"
  sql_text :: "js_value \<Rightarrow> string"

definition jwt_claims :: "int \<Rightarrow> string \<Rightarrow> int option \<Rightarrow> int \<Rightarrow> claims" where
  "jwt_claims uid uname expiresIn now =
     \<lparr>claim_id = uid, claim_username = uname, claim_iat = now,
      claim_exp = map_option (\<lambda>d. now + d) expiresIn\<rparr>"

definition jwt_sign :: "extern \<Rightarrow> int \<Rightarrow> string \<Rightarrow> int option \<Rightarrow> string \<Rightarrow> int \<Rightarrow> string" where
  "jwt_sign ext uid uname expiresIn secret now =
     jwt_encode ext (jwt_claims uid uname expiresIn now) secret"

definition jwt_verify :: "extern \<Rightarrow> string \<Rightarrow> string \<Rightarrow> int \<Rightarrow> claims option" where
  "jwt_verify ext token secret now =
     (case jwt_decode ext token secret of
        None \<Rightarrow> None
      | Some c \<Rightarrow>
          (case claim_exp c of
             None \<Rightarrow> Some c
           | Some e \<Rightarrow> if e \<le> now then None else Some c))"

text \<open>
  The bound of the doubles: a real number from \<open>2 ^ 1024 - 2 ^ 970\<close> on, halfway between
  the largest double and \<open>2 ^ 1024\<close>, has no nearest double.
\<close>

definition double_limit :: real where
  "double_limit = 2 ^ 1024 - 2 ^ 970"

text \<open>
  \<^verbatim>\<open>app.use(express.json())\<close>: a number of the body becomes the nearest double, and an
  infinity when it is beyond the doubles; every other value is taken as it is.
\<close>

definition express_json :: "extern \<Rightarrow> js_value \<Rightarrow> js_value" where
  "express_json ext v =
     (case v of
        JNum x \<Rightarrow>
          if double_limit \<le> \<bar>x\<bar> then (if 0 < x then JInfinity else JNegInfinity)
          else JNum (to_double ext x)
      | _ \<Rightarrow> v)"

text \<open>
  \<^verbatim>\<open>res.json(value)\<close> writes an infinity as null; the client reads every other value of
  a row as it is.
\<close>

definition res_json :: "js_value \<Rightarrow> js_value" where
  "res_json v = (case v of JInfinity \<Rightarrow> JNull | JNegInfinity \<Rightarrow> JNull | _ \<Rightarrow> v)"

text \<open>
  A request: the \<^verbatim>\<open>Authorization\<close> header if there is one, \<^verbatim>\<open>req.user\<close>, and the
  route with the fields of the posted body that its handler reads. The fields of a login
  and of the settings are any values; those of a signup are the strings that the
  landing page sends.
\<close>

datatype api_call =
    Signup string string string
  | Login js_value js_value
  | TrafficSummary
  | TrafficHistory
  | GetSettings
  | PostSettings js_value js_value

record request =
  authorization :: "string option"
  user :: "claims option"
  call :: api_call

text \<open>
  The bodies of the answers. \<open>ErrorPage\<close> is the page with which Express answers an
  exception that a handler throws.
\<close>

datatype body =
    ErrorBody string
  | SuccessBody
  | TokenBody string string string
  | SummaryBody stats "domain_total list" "(string \<times> nat) list"
  | HistoryBody "bucket list"
  | SettingsBody "(string \<times> js_value) list option"
  | ErrorPage js_error

record response =
  status :: nat
  body :: body

text \<open>
  What becomes of a request: an answer, or the rejection of the promise of an
  \<^verbatim>\<open>async\<close> handler by an exception that nothing in the handler catches; the handler
  has sent no answer then.
\<close>

datatype answer = Answer response | Rejected js_error

text \<open>What a handler call needs from outside: the clock, and the salt of a new hash.\<close>

record env =
  clock :: int
  salt :: string

type_synonym handler = "request \<Rightarrow> db \<Rightarrow> answer \<times> db"

text \<open>\<^verbatim>\<open>s.split(" ")\<close>: the pieces of \<open>s\<close> between its spaces, empty pieces included.\<close>

fun split_on :: "char \<Rightarrow> string \<Rightarrow> string list" where
  "split_on c [] = [[]]"
| "split_on c (x # xs) =
     (if x = c then [] # split_on c xs
      else (case split_on c xs of [] \<Rightarrow> [[x]] | w # ws \<Rightarrow> (x # w) # ws))"

text \<open>\<^verbatim>\<open>req.headers.authorization?.split(" ")[1]\<close>, \<open>None\<close> for \<^verbatim>\<open>undefined\<close>.\<close>

definition header_token :: "string option \<Rightarrow> string option" where
  "header_token h =
     (case h of
        None \<Rightarrow> None
      | Some v \<Rightarrow> (case split_on (CHR '' '') v of _ # t # _ \<Rightarrow> Some t | _ \<Rightarrow> None))"

definition authenticate :: "extern \<Rightarrow> string \<Rightarrow> int \<Rightarrow> handler \<Rightarrow> handler" where
  "authenticate ext secret now next req d =
     (case header_token (authorization req) of
        None \<Rightarrow> (Answer \<lparr>status = 401, body = ErrorBody ''Unauthorized''\<rparr>, d)
      | Some token \<Rightarrow>
          if token = [] then (Answer \<lparr>status = 401, body = ErrorBody ''Unauthorized''\<rparr>, d)
          else
            (case jwt_verify ext token secret now of
               None \<Rightarrow> (Answer \<lparr>status = 401, body = ErrorBody ''Invalid token''\<rparr>, d)
             | Some decoded \<Rightarrow> next (req\<lparr>user := Some decoded\<rparr>) d))"

text \<open>
  \<^verbatim>\<open>POST /api/auth/signup\<close>: the INSERT fails on a UNIQUE column that has the value
  already, and the handler answers 400 with the message of the engine.
\<close>

definition signup :: "extern \<Rightarrow> string \<Rightarrow> string \<Rightarrow> string \<Rightarrow> string \<Rightarrow> db \<Rightarrow> answer \<times> db" where
  "signup ext slt uname mail password d =
     (if \<exists>u \<in> set (users d). email u = mail
      then (Answer \<lparr>status = 400,
                    body = ErrorBody ''UNIQUE constraint failed: users.email''\<rparr>, d)
      else if \<exists>u \<in> set (users d). username u = uname
      then (Answer \<lparr>status = 400,
                    body = ErrorBody ''UNIQUE constraint failed: users.username''\<rparr>, d)
      else (Answer \<lparr>status = 200, body = SuccessBody\<rparr>,
            d\<lparr>users := users d @
                 [\<lparr>user_id = next_rowid (map user_id (users d)), username = uname,
                   email = mail, password_hash = bcrypt_hash ext password slt\<rparr>]\<rparr>))"

text \<open>
  \<^verbatim>\<open>db.prepare("SELECT * FROM users WHERE email = ?").get(email)\<close>: the first row with
  the email, if there is one. \<^verbatim>\<open>better-sqlite3\<close> binds a string, a number, and null for
  null and \<^verbatim>\<open>undefined\<close>, and throws a TypeError for a boolean. No row has an email
  equal to NULL; a number is compared as the text that it is.
\<close>

definition user_by_email :: "extern \<Rightarrow> js_value \<Rightarrow> user_row list \<Rightarrow> js_error + user_row option" where
  "user_by_email ext mail us =
     (case mail of
        JUndefined \<Rightarrow> Inr None
      | JNull \<Rightarrow> Inr None
      | JBool b \<Rightarrow>
          Inl (TypeError ''SQLite3 can only bind numbers, strings, bigints, buffers, and null'')
      | JStr s \<Rightarrow> Inr (find (\<lambda>u. email u = s) us)
      | n \<Rightarrow> Inr (find (\<lambda>u. email u = sql_text ext n) us))"

text \<open>
  \<^verbatim>\<open>POST /api/auth/login\<close>, an \<^verbatim>\<open>async\<close> handler without a \<^verbatim>\<open>try\<close>. When no row has
  the email, \<^verbatim>\<open>!user\<close> decides and the password is not looked at. When a row has it,
  \<^verbatim>\<open>bcrypt.compare(password, user.password_hash)\<close> is awaited: \<^verbatim>\<open>bcryptjs\<close> compares
  two strings, and rejects with \<^verbatim>\<open>Illegal arguments\<close> and the two types when the
  password is not a string.
\<close>

definition login :: "extern \<Rightarrow> string \<Rightarrow> int \<Rightarrow> js_value \<Rightarrow> js_value \<Rightarrow> db \<Rightarrow> answer \<times> db" where
  "login ext secret now mail password d =
     (case user_by_email ext mail (users d) of
        Inl e \<Rightarrow> (Rejected e, d)
      | Inr None \<Rightarrow> (Answer \<lparr>status = 401, body = ErrorBody ''Invalid credentials''\<rparr>, d)
      | Inr (Some u) \<Rightarrow>
          (case password of
             JStr p \<Rightarrow>
               if \<not> bcrypt_compare ext p (password_hash u)
               then (Answer \<lparr>status = 401, body = ErrorBody ''Invalid credentials''\<rparr>, d)
               else (Answer \<lparr>status = 200,
                       body = TokenBody (jwt_sign ext (user_id u) (username u) None secret now)
                                (username u) (email u)\<rparr>, d)
           | _ \<Rightarrow>
               (Rejected (Error (''Illegal arguments: '' @ js_typeof password @ '', string'')),
                d)))"

definition traffic_summary :: "int \<Rightarrow> handler" where
  "traffic_summary now req d =
     (Answer \<lparr>status = 200,
       body = SummaryBody (summary_stats now (traffic_logs d)) (topDomains (traffic_logs d))
                (protocolStats (traffic_logs d))\<rparr>, d)"

definition traffic_history :: "int \<Rightarrow> handler" where
  "traffic_history now req d =
     (Answer \<lparr>status = 200, body = HistoryBody (history now (traffic_logs d))\<rparr>, d)"

text \<open>
  The row of \<^verbatim>\<open>SELECT * FROM settings WHERE id = 1\<close> as the client reads it from the
  answer of \<^verbatim>\<open>res.json(config)\<close>.
\<close>

definition settings_json :: "settings_row \<Rightarrow> (string \<times> js_value) list" where
  "settings_json r =
     [(''id'', JNum (of_int (settings_id r))),
      (''data_limit_gb'', res_json (data_limit_gb r)),
      (''alerts_enabled'', JNum (of_int (alerts_enabled r)))]"

definition get_settings :: handler where
  "get_settings req d =
     (Answer \<lparr>status = 200,
       body = SettingsBody
                (map_option settings_json (find (\<lambda>r. settings_id r = 1) (settings d)))\<rparr>, d)"

text \<open>
  What the UPDATE writes into \<^verbatim>\<open>data_limit_gb\<close> for a value of the body:
  \<^verbatim>\<open>better-sqlite3\<close> binds null for null and \<^verbatim>\<open>undefined\<close>, binds a number and a
  string, and throws a TypeError for a boolean; the column of REAL affinity takes a
  text that looks like a number as that number.
\<close>

definition bind_real :: "extern \<Rightarrow> js_value \<Rightarrow> js_error + js_value" where
  "bind_real ext v =
     (case v of
        JUndefined \<Rightarrow> Inr JNull
      | JNull \<Rightarrow> Inr JNull
      | JBool b \<Rightarrow>
          Inl (TypeError ''SQLite3 can only bind numbers, strings, bigints, buffers, and null'')
      | JStr s \<Rightarrow> Inr (case sql_numeric ext s of None \<Rightarrow> JStr s | Some n \<Rightarrow> n)
      | n \<Rightarrow> Inr n)"

text \<open>
  \<^verbatim>\<open>POST /api/settings\<close>. The exception of a value that cannot be bound leaves the
  handler before the UPDATE has run, and Express answers it with status 500.
\<close>

definition post_settings :: "extern \<Rightarrow> js_value \<Rightarrow> js_value \<Rightarrow> handler" where
  "post_settings ext limit alerts req d =
     (case bind_real ext limit of
        Inl e \<Rightarrow> (Answer \<lparr>status = 500, body = ErrorPage e\<rparr>, d)
      | Inr v \<Rightarrow>
          (Answer \<lparr>status = 200, body = SuccessBody\<rparr>,
           d\<lparr>settings :=
                map (\<lambda>r. if settings_id r = 1
                          then r\<lparr>data_limit_gb := v,
                                 alerts_enabled := (if truthy alerts then 1 else 0)\<rparr>
                          else r)
                    (settings d)\<rparr>))"

text \<open>
  The routes of the application: the four that are registered with \<open>authenticate\<close> in
  front of their handler, and the two that are not. The handlers read the body that
  \<^verbatim>\<open>express.json()\<close> has parsed.
\<close>

definition app :: "extern \<Rightarrow> string \<Rightarrow> env \<Rightarrow> request \<Rightarrow> db \<Rightarrow> answer \<times> db" where
  "app ext secret e req d =
     (case call req of
        Signup uname mail password \<Rightarrow> signup ext (salt e) uname mail password d
      | Login mail password \<Rightarrow>
          login ext secret (clock e) (express_json ext mail) (express_json ext password) d
      | TrafficSummary \<Rightarrow>
          authenticate ext secret (clock e) (traffic_summary (clock e)) req d
      | TrafficHistory \<Rightarrow>
          authenticate ext secret (clock e) (traffic_history (clock e)) req d
      | GetSettings \<Rightarrow> authenticate ext secret (clock e) get_settings req d
      | PostSettings limit alerts \<Rightarrow>
          authenticate ext secret (clock e)
            (post_settings ext (express_json ext limit) (express_json ext alerts)) req d)"

section \<open>The traffic simulator\<close>

definition domains :: "string list" where
  "domains = [''google.com'', ''github.com'', ''youtube.com'', ''netflix.com'', ''amazon.com'',
              ''facebook.com'', ''twitter.com'', ''reddit.com'', ''microsoft.com'', ''apple.com'']"

definition protocols :: "string list" where
  "protocols = [''HTTPS'', ''HTTP'', ''DNS'', ''TCP'', ''UDP'']"

text \<open>\<^verbatim>\<open>xs[i]\<close> of JavaScript: \<^verbatim>\<open>undefined\<close> (\<open>None\<close>) outside the array.\<close>

definition js_index :: "'a list \<Rightarrow> int \<Rightarrow> 'a option" where
  "js_index xs i = (if 0 \<le> i \<and> i < int (length xs) then Some (xs ! nat i) else None)"

text \<open>
  \<^verbatim>\<open>Math.floor(Math.random() * n)\<close>. The draw \<open>r\<close> of \<^verbatim>\<open>Math.random()\<close> is an input of
  the tick, and the multiplication of two doubles is the parameter \<open>fmul\<close>, which returns
  the product rounded to a double.
\<close>

definition random_int :: "(real \<Rightarrow> real \<Rightarrow> real) \<Rightarrow> real \<Rightarrow> real \<Rightarrow> int" where
  "random_int fmul r n = \<lfloor>fmul r n\<rfloor>"

text \<open>The decimal digits of an integer, as a template literal prints it.\<close>

fun string_of_nat :: "nat \<Rightarrow> string" where
  "string_of_nat n =
     (if n < 10 then [char_of (48 + n)]
      else string_of_nat (n div 10) @ [char_of (48 + n mod 10)])"

declare string_of_nat.simps [simp del]

definition string_of_int :: "int \<Rightarrow> string" where
  "string_of_int i =
     (if i < 0 then CHR ''-'' # string_of_nat (nat (- i)) else string_of_nat (nat i))"

text \<open>
  A connection of \<^verbatim>\<open>wss.clients\<close>. \<open>link_ok\<close> tells whether a frame written to the
  connection arrives: it is the pattern of send failures of a tick.
\<close>

datatype ready_state = CONNECTING | OPEN | CLOSING | CLOSED

record client =
  client_id :: nat
  readyState :: ready_state
  link_ok :: bool

text \<open>The message \<^verbatim>\<open>{type: "TRAFFIC_UPDATE", data: logEntry}\<close>.\<close>

datatype message = TRAFFIC_UPDATE traffic_log

datatype send_event = Delivered nat message | Lost nat message

fun event_client :: "send_event \<Rightarrow> nat" where
  "event_client (Delivered c m) = c"
| "event_client (Lost c m) = c"

text \<open>
  \<^verbatim>\<open>client.send(data)\<close> of the \<^verbatim>\<open>ws\<close> package: it throws on a connection that is
  still CONNECTING, drops the data of a connection that is CLOSING or CLOSED, and writes
  the frame of an OPEN connection to its socket. A write that fails is reported to the
  callback of \<^verbatim>\<open>send\<close>, which the server does not pass: the call returns all the same.
\<close>

definition ws_send :: "client \<Rightarrow> message \<Rightarrow> js_error + send_event" where
  "ws_send c m =
     (if readyState c = CONNECTING
      then Inl (Error ''WebSocket is not open: readyState 0 (CONNECTING)'')
      else if readyState c = OPEN \<and> link_ok c then Inr (Delivered (client_id c) m)
      else Inr (Lost (client_id c) m))"

text \<open>
  \<^verbatim>\<open>wss.clients.forEach\<close> with the callback of the tick: an exception of a call ends the
  loop, since nothing catches it.
\<close>

fun broadcast :: "message \<Rightarrow> client list \<Rightarrow> js_error + send_event list" where
  "broadcast m [] = Inr []"
| "broadcast m (c # cs) =
     (if readyState c = OPEN
      then (case ws_send c m of
              Inl e \<Rightarrow> Inl e
            | Inr ev \<Rightarrow> (case broadcast m cs of Inl e \<Rightarrow> Inl e | Inr evs \<Rightarrow> Inr (ev # evs)))
      else broadcast m cs)"

text \<open>
  What a tick takes from outside: the six draws of \<^verbatim>\<open>Math.random()\<close> in the order of the
  calls, the clock of the INSERT (\<^verbatim>\<open>CURRENT_TIMESTAMP\<close>), the clock of
  \<^verbatim>\<open>new Date()\<close>, and the connections of the moment.
\<close>

record tick_input =
  r_domain :: real
  r_protocol :: real
  r_upload :: real
  r_download :: real
  r_source :: real
  r_dest :: real
  db_now :: int
  js_now :: int
  clients :: "client list"

text \<open>
  The callback of \<^verbatim>\<open>setInterval\<close>. The result is the store after the tick and either the
  exception that left the callback or the sends of the broadcast. A domain or protocol
  read outside its array would be \<^verbatim>\<open>undefined\<close>; no draw of \<^verbatim>\<open>Math.random()\<close> leads
  there, the columns of the model hold strings, and the model ends such a tick with an
  error before any row is written.
\<close>

definition tick :: "(real \<Rightarrow> real \<Rightarrow> real) \<Rightarrow> tick_input \<Rightarrow> db
    \<Rightarrow> db \<times> (js_error + send_event list)" where
  "tick fmul inp d =
     (let dom = js_index domains (random_int fmul (r_domain inp) (real (length domains)));
          proto = js_index protocols (random_int fmul (r_protocol inp) (real (length protocols)));
          upl = random_int fmul (r_upload inp) 50000;
          downl = random_int fmul (r_download inp) 500000;
          sourceIp = ''192.168.1.'' @ string_of_int (random_int fmul (r_source inp) 255);
          destIp = ''104.26.12.'' @ string_of_int (random_int fmul (r_dest inp) 255)
      in case (dom, proto) of
           (Some dm, Some pr) \<Rightarrow>
             (let row = \<lparr>log_id = next_rowid (map log_id (traffic_logs d)),
                         timestamp = db_now inp, source_ip = sourceIp,
                         destination_ip = destIp, domain = dm, protocol = pr,
                         upload_bytes = upl, download_bytes = downl\<rparr>;
                  d' = d\<lparr>traffic_logs := traffic_logs d @ [row]\<rparr>;
                  logEntry = row\<lparr>timestamp := js_now inp\<rparr>
              in (d', broadcast (TRAFFIC_UPDATE logEntry) (clients inp)))
         | _ \<Rightarrow>
             (d, Inl (Error ''domain or protocol undefined'')))"

text \<open>
  The timer: one tick after the other. An exception that leaves a callback is uncaught
  and ends the process, so the ticks after it do not run.
\<close>

fun run_ticks :: "(real \<Rightarrow> real \<Rightarrow> real) \<Rightarrow> tick_input list \<Rightarrow> db
    \<Rightarrow> db \<times> (js_error + send_event list list)" where
  "run_ticks fmul [] d = (d, Inr [])"
| "run_ticks fmul (inp # inps) d =
     (case tick fmul inp d of
        (d', Inl e) \<Rightarrow> (d', Inl e)
      | (d', Inr evs) \<Rightarrow>
          (case run_ticks fmul inps d' of
             (d'', Inl e) \<Rightarrow> (d'', Inl e)
           | (d'', Inr evss) \<Rightarrow> (d'', Inr (evs # evss))))"

section \<open>Stores and inputs for the examples\<close>

definition demo_row :: "int \<Rightarrow> int \<Rightarrow> string \<Rightarrow> int \<Rightarrow> int \<Rightarrow> traffic_log" where
  "demo_row i t dm upl downl =
     \<lparr>log_id = i, timestamp = t, source_ip = ''192.168.1.7'', destination_ip = ''104.26.12.9'',
      domain = dm, protocol = ''TCP'', upload_bytes = upl, download_bytes = downl\<rparr>"

definition demo_logs :: "traffic_log list" where
  "demo_logs =
     [demo_row 1 1000 ''b'' 1 1, demo_row 2 50000 ''a'' 1 1,
      demo_row 3 90000 ''x'' 100 200, demo_row 4 91000 ''x'' 300 50]"

definition demo_claims :: claims where
  "demo_claims = \<lparr>claim_id = 1, claim_username = ''alice'', claim_iat = 1000, claim_exp = None\<rparr>"

text \<open>
  Stand-ins for the packages: two tokens are known, one without and one with an expiry
  (at second 500); a hash is the salt (four characters) followed by the password; the
  numbers of the examples are doubles and are parsed as they are; the one text that
  is taken for a number is \<open>50\<close>.
\<close>

definition demo_ext :: extern where
  "demo_ext =
     \<lparr>jwt_encode = (\<lambda>c s. ''header.payload.signature''),
      jwt_decode = (\<lambda>t s.
         if s \<noteq> ''smart-traffic-secret'' then None
         else if t = ''header.payload.signature'' then Some demo_claims
         else if t = ''header.expiring.signature''
         then Some (demo_claims\<lparr>claim_exp := Some 500\<rparr>)
         else None),
      bcrypt_hash = (\<lambda>password slt. slt @ password),
      bcrypt_compare = (\<lambda>password h. drop 4 h = password),
      to_double = (\<lambda>x. x),
      sql_numeric = (\<lambda>s. if s = ''50'' then Some (JNum 50) else None),
      sql_text = (\<lambda>n. '''')\<rparr>"

definition demo_db :: db where
  "demo_db =
     \<lparr>users = [\<lparr>user_id = 1, username = ''alice'', email = ''alice@example.org'',
                password_hash = ''saltwonderland''\<rparr>],
      traffic_logs = demo_logs,
      settings = [\<lparr>settings_id = 1, data_limit_gb = JNum 100, alerts_enabled = 1\<rparr>]\<rparr>"

definition demo_env :: env where
  "demo_env = \<lparr>clock = 1000, salt = ''salt''\<rparr>"

definition demo_request :: "string option \<Rightarrow> api_call \<Rightarrow> request" where
  "demo_request h c = \<lparr>authorization = h, user = None, call = c\<rparr>"

text \<open>A handler that reads \<^verbatim>\<open>req.user\<close>: it answers with the name in the claims.\<close>

definition whoami :: handler where
  "whoami req d =
     (Answer \<lparr>status = 200,
              body = ErrorBody (case user req of None \<Rightarrow> ''nobody''
                                | Some c \<Rightarrow> claim_username c)\<rparr>, d)"

definition demo_clients :: "client list" where
  "demo_clients =
     [\<lparr>client_id = 1, readyState = OPEN, link_ok = False\<rparr>,
      \<lparr>client_id = 2, readyState = CLOSED, link_ok = False\<rparr>,
      \<lparr>client_id = 3, readyState = OPEN, link_ok = True\<rparr>]"

definition demo_input :: tick_input where
  "demo_input =
     \<lparr>r_domain = 1 / 4, r_protocol = 1 / 2, r_upload = 1 / 8, r_download = 3 / 4,
      r_source = 1 / 2, r_dest = 0, db_now = 92000, js_now = 92000,
      clients = demo_clients\<rparr>"

section \<open>The notions of the properties\<close>

text \<open>
  The routes that are registered with \<open>authenticate\<close>, and the handler that is registered
  behind it.
\<close>

fun authenticated_route :: "api_call \<Rightarrow> bool" where
  "authenticated_route (Signup uname mail password) = False"
| "authenticated_route (Login mail password) = False"
| "authenticated_route c = True"

fun route_handler :: "extern \<Rightarrow> int \<Rightarrow> api_call \<Rightarrow> handler" where
  "route_handler ext now TrafficSummary = traffic_summary now"
| "route_handler ext now TrafficHistory = traffic_history now"
| "route_handler ext now GetSettings = get_settings"
| "route_handler ext now (PostSettings limit alerts) =
     post_settings ext (express_json ext limit) (express_json ext alerts)"
| "route_handler ext now c =
     (\<lambda>req d. (Answer \<lparr>status = 404, body = ErrorBody ''Not found''\<rparr>, d))"

text \<open>
  Bad credentials of a login with an email and a password that are strings: no user has
  the email, or the user who has it has a hash that the password does not verify
  against.
\<close>

definition no_such_user :: "db \<Rightarrow> string \<Rightarrow> bool" where
  "no_such_user d mail \<longleftrightarrow> (\<forall>u \<in> set (users d). email u \<noteq> mail)"

definition wrong_password :: "extern \<Rightarrow> db \<Rightarrow> string \<Rightarrow> string \<Rightarrow> bool" where
  "wrong_password ext d mail password \<longleftrightarrow>
     (\<exists>u \<in> set (users d). email u = mail) \<and>
     \<not> bcrypt_compare ext password
         (password_hash (hd (filter (\<lambda>u. email u = mail) (users d))))"

text \<open>The settings table has exactly one row, and its id is 1.\<close>

definition settings_ok :: "db \<Rightarrow> bool" where
  "settings_ok d \<longleftrightarrow> (\<exists>limit alerts.
     settings d = [\<lparr>settings_id = 1, data_limit_gb = limit, alerts_enabled = alerts\<rparr>])"



text \<open>
  A draw of \<^verbatim>\<open>Math.random()\<close> is a double that is at least 0 and less than 1, so at most
  \<open>1 - 1 / 2 ^ 53\<close>. A product of two doubles that are not negative is the exact product
  rounded to the nearest double: it is not negative, and it is off by at most the
  fraction \<open>1 / 2 ^ 53\<close> of the exact product, and by \<open>1 / 2 ^ 1075\<close> more where the
  product is subnormal.
\<close>

definition random_draw :: "real \<Rightarrow> bool" where
  "random_draw r \<longleftrightarrow> 0 \<le> r \<and> r \<le> 1 - 1 / 2 ^ 53"

definition valid_draws :: "tick_input \<Rightarrow> bool" where
  "valid_draws inp \<longleftrightarrow>
     random_draw (r_domain inp) \<and> random_draw (r_protocol inp) \<and>
     random_draw (r_upload inp) \<and> random_draw (r_download inp) \<and>
     random_draw (r_source inp) \<and> random_draw (r_dest inp)"

definition double_mul :: "(real \<Rightarrow> real \<Rightarrow> real) \<Rightarrow> bool" where
  "double_mul fmul \<longleftrightarrow>
     (\<forall>x y. 0 \<le> x \<and> 0 \<le> y \<longrightarrow>
        0 \<le> fmul x y \<and> \<bar>fmul x y - x * y\<bar> \<le> x * y / 2 ^ 53 + 1 / 2 ^ 1075)"

text \<open>The operations on the store: a request to the application, or a tick of the timer.\<close>

datatype operation = Request env request | Tick tick_input

definition step :: "extern \<Rightarrow> string \<Rightarrow> (real \<Rightarrow> real \<Rightarrow> real) \<Rightarrow> operation \<Rightarrow> db \<Rightarrow> db" where
  "step ext secret fmul op d =
     (case op of
        Request e req \<Rightarrow> snd (app ext secret e req d)
      | Tick inp \<Rightarrow> fst (tick fmul inp d))"

definition run :: "extern \<Rightarrow> string \<Rightarrow> (real \<Rightarrow> real \<Rightarrow> real) \<Rightarrow> operation list \<Rightarrow> db \<Rightarrow> db" where
  "run ext secret fmul ops d = foldl (\<lambda>d op. step ext secret fmul op d) d ops"

abbreviation desc_total :: "domain_total list \<Rightarrow> bool" where
  "desc_total \<equiv> sorted_wrt (\<lambda>a b. total_bytes b \<le> total_bytes a)"

section \<open>The top domains of the summary\<close>

lemma set_insert_desc: "set (insert_desc g hs) = insert g (set hs)"
  by (induction hs) auto

lemma length_insert_desc: "length (insert_desc g hs) = Suc (length hs)"
  by (induction hs) auto

lemma desc_insert_desc: "desc_total hs \<Longrightarrow> desc_total (insert_desc g hs)"
  by (induction hs) (auto simp: set_insert_desc)

text \<open>
  The insertion is stable: among the entries of one total, the new one comes last.
\<close>

lemma filter_insert_desc:
  "desc_total hs \<Longrightarrow>
   filter (\<lambda>x. total_bytes x = t) (insert_desc g hs) =
   filter (\<lambda>x. total_bytes x = t) hs @ (if total_bytes g = t then [g] else [])"
proof (induction hs)
  case Nil
  then show ?case by simp
next
  case (Cons h hs)
  show ?case
  proof (cases "total_bytes h < total_bytes g")
    case True
    have "\<forall>x \<in> set (h # hs). total_bytes x < total_bytes g"
      using Cons.prems True by auto
    then have "total_bytes g = t \<Longrightarrow> filter (\<lambda>x. total_bytes x = t) (h # hs) = []"
      by (auto simp: filter_empty_conv)
    with True show ?thesis by auto
  next
    case False
    with Cons show ?thesis by auto
  qed
qed

lemma distinct_insert_desc:
  "distinct (map dt_domain (insert_desc g hs)) \<longleftrightarrow>
   dt_domain g \<notin> dt_domain ` set hs \<and> distinct (map dt_domain hs)"
  by (induction hs) (auto simp: set_insert_desc)

lemma foldl_insert_desc:
  "desc_total acc \<Longrightarrow>
   desc_total (foldl (\<lambda>acc g. insert_desc g acc) acc gs) \<and>
   set (foldl (\<lambda>acc g. insert_desc g acc) acc gs) = set acc \<union> set gs \<and>
   length (foldl (\<lambda>acc g. insert_desc g acc) acc gs) = length acc + length gs \<and>
   (\<forall>t. filter (\<lambda>x. total_bytes x = t) (foldl (\<lambda>acc g. insert_desc g acc) acc gs) =
        filter (\<lambda>x. total_bytes x = t) acc @ filter (\<lambda>x. total_bytes x = t) gs)"
proof (induction gs arbitrary: acc)
  case Nil
  then show ?case by simp
next
  case (Cons g gs)
  have d: "desc_total (insert_desc g acc)"
    using Cons.prems by (rule desc_insert_desc)
  show ?case
    using Cons.IH [OF d] Cons.prems
    by (simp add: set_insert_desc length_insert_desc filter_insert_desc)
qed

lemma foldl_insert_desc_distinct:
  "distinct (map dt_domain (acc @ gs)) \<Longrightarrow>
   distinct (map dt_domain (foldl (\<lambda>acc g. insert_desc g acc) acc gs))"
proof (induction gs arbitrary: acc)
  case Nil
  then show ?case by simp
next
  case (Cons g gs)
  have "distinct (map dt_domain (insert_desc g acc @ gs))"
    using Cons.prems by (auto simp: distinct_insert_desc set_insert_desc)
  then show ?case using Cons.IH by simp
qed

lemma order_by_total_desc_props:
  "desc_total (order_by_total_desc gs)"
  "set (order_by_total_desc gs) = set gs"
  "length (order_by_total_desc gs) = length gs"
  "filter (\<lambda>x. total_bytes x = t) (order_by_total_desc gs) = filter (\<lambda>x. total_bytes x = t) gs"
  using foldl_insert_desc [of "[]" gs] by (simp_all add: order_by_total_desc_def)

lemma order_by_total_desc_distinct:
  "distinct (map dt_domain gs) \<Longrightarrow> distinct (map dt_domain (order_by_total_desc gs))"
  using foldl_insert_desc_distinct [of "[]" gs] by (simp add: order_by_total_desc_def)

lemma set_group_domains: "set (group_domains logs) = domain ` set logs"
  by (simp add: group_domains_def)

lemma distinct_group_domains: "distinct (group_domains logs)"
  by (simp add: group_domains_def)

lemma length_group_domains: "length (group_domains logs) = card (domain ` set logs)"
  by (simp add: group_domains_def length_remdups_card_conv)

lemma dt_domain_domain_groups: "map dt_domain (domain_groups logs) = group_domains logs"
  by (simp add: domain_groups_def domain_group_def comp_def)

text \<open>The groups reach the ORDER BY in descending order of the domain.\<close>

lemma group_domains_desc: "sorted_wrt (\<lambda>a b. b < a) (group_domains logs)"
proof -
  have "sorted_wrt (<) (sort (remdups (map domain logs)))"
    by (simp add: strict_sorted_iff)
  then show ?thesis
    unfolding group_domains_def by (simp add: sorted_wrt_rev)
qed

text \<open>
  Claim C1. The top domains of the summary: the list is in descending order of
  \<open>total_bytes\<close>, has one entry for each of at most five domains of the store (five when
  the store has five domains or more), the total of an entry is the sum of
  \<open>upload_bytes + download_bytes\<close> over the records of its domain, every domain that is
  left out has a total no larger than the totals that are listed, and entries of equal
  total stand in the order in which the grouping yields them (\<open>domain_groups\<close>; the
  listed ones are the first of them). For two records of domain \<open>x\<close> with (100, 200) and
  (300, 50) bytes the list is the one entry \<open>x\<close> with 650.
\<close>

theorem topDomains_sorted_top5:
  "sorted_wrt (\<lambda>a b. total_bytes b \<le> total_bytes a) (topDomains logs) \<and>
   length (topDomains logs) = min 5 (card (domain ` set logs)) \<and>
   length (topDomains logs) \<le> 5 \<and>
   distinct (map dt_domain (topDomains logs)) \<and>
   (\<forall>g \<in> set (topDomains logs).
      dt_domain g \<in> domain ` set logs \<and>
      total_bytes g = (\<Sum>r \<leftarrow> filter (\<lambda>r. domain r = dt_domain g) logs.
                         upload_bytes r + download_bytes r)) \<and>
   (\<forall>g \<in> set (domain_groups logs). g \<notin> set (topDomains logs) \<longrightarrow>
      (\<forall>h \<in> set (topDomains logs). total_bytes g \<le> total_bytes h)) \<and>
   (\<forall>t. prefix (filter (\<lambda>g. total_bytes g = t) (topDomains logs))
               (filter (\<lambda>g. total_bytes g = t) (domain_groups logs))) \<and>
   (\<forall>r1 r2. domain r1 = ''x'' \<and> upload_bytes r1 = 100 \<and> download_bytes r1 = 200 \<and>
            domain r2 = ''x'' \<and> upload_bytes r2 = 300 \<and> download_bytes r2 = 50 \<longrightarrow>
            topDomains [r1, r2] = [\<lparr>dt_domain = ''x'', total_bytes = 650\<rparr>])"
proof -
  let ?all = "order_by_total_desc (domain_groups logs)"
  have top: "topDomains logs = take 5 ?all"
    by (simp add: topDomains_def)
  have sorted_all: "desc_total ?all"
    by (rule order_by_total_desc_props)
  have c1: "desc_total (topDomains logs)"
    unfolding top using sorted_all by (rule sorted_wrt_take)
  have len_all: "length ?all = card (domain ` set logs)"
    by (simp add: order_by_total_desc_props domain_groups_def length_group_domains)
  have c2: "length (topDomains logs) = min 5 (card (domain ` set logs))"
    unfolding top using len_all by simp
  have "distinct (map dt_domain (domain_groups logs))"
    by (simp add: dt_domain_domain_groups distinct_group_domains)
  then have "distinct (map dt_domain ?all)"
    by (rule order_by_total_desc_distinct)
  then have c4: "distinct (map dt_domain (topDomains logs))"
    unfolding top by (simp add: take_map [symmetric])
  have sub: "set (topDomains logs) \<subseteq> set (domain_groups logs)"
    unfolding top using set_take_subset [of 5 ?all] by (simp add: order_by_total_desc_props)
  have c5: "\<forall>g \<in> set (topDomains logs).
      dt_domain g \<in> domain ` set logs \<and>
      total_bytes g = (\<Sum>r \<leftarrow> filter (\<lambda>r. domain r = dt_domain g) logs.
                         upload_bytes r + download_bytes r)"
  proof
    fix g assume "g \<in> set (topDomains logs)"
    with sub have "g \<in> set (domain_groups logs)" by blast
    then obtain d where "d \<in> set (group_domains logs)" "g = domain_group logs d"
      by (auto simp: domain_groups_def)
    then show "dt_domain g \<in> domain ` set logs \<and>
      total_bytes g = (\<Sum>r \<leftarrow> filter (\<lambda>r. domain r = dt_domain g) logs.
                         upload_bytes r + download_bytes r)"
      by (simp add: domain_group_def set_group_domains [symmetric])
  qed
  have c6: "\<forall>g \<in> set (domain_groups logs). g \<notin> set (topDomains logs) \<longrightarrow>
      (\<forall>h \<in> set (topDomains logs). total_bytes g \<le> total_bytes h)"
  proof (intro ballI impI)
    fix g h
    assume g: "g \<in> set (domain_groups logs)" "g \<notin> set (topDomains logs)"
      and h: "h \<in> set (topDomains logs)"
    have split: "?all = take 5 ?all @ drop 5 ?all" by simp
    from g have "g \<in> set ?all" by (simp add: order_by_total_desc_props)
    with g(2) have "g \<in> set (drop 5 ?all)"
      unfolding top by (metis Un_iff set_append split)
    moreover have "desc_total (take 5 ?all @ drop 5 ?all)"
      using sorted_all by simp
    ultimately show "total_bytes g \<le> total_bytes h"
      using h unfolding top by (simp only: sorted_wrt_append)
  qed
  have c7: "\<forall>t. prefix (filter (\<lambda>g. total_bytes g = t) (topDomains logs))
               (filter (\<lambda>g. total_bytes g = t) (domain_groups logs))"
  proof
    fix t
    have "prefix (filter (\<lambda>g. total_bytes g = t) (take 5 ?all))
                 (filter (\<lambda>g. total_bytes g = t) ?all)"
      by (rule filter_mono_prefix) (rule take_is_prefix)
    then show "prefix (filter (\<lambda>g. total_bytes g = t) (topDomains logs))
               (filter (\<lambda>g. total_bytes g = t) (domain_groups logs))"
      unfolding top by (simp add: order_by_total_desc_props)
  qed
  have c8: "\<forall>r1 r2. domain r1 = ''x'' \<and> upload_bytes r1 = 100 \<and> download_bytes r1 = 200 \<and>
            domain r2 = ''x'' \<and> upload_bytes r2 = 300 \<and> download_bytes r2 = 50 \<longrightarrow>
            topDomains [r1, r2] = [\<lparr>dt_domain = ''x'', total_bytes = 650\<rparr>]"
    by (simp add: topDomains_def order_by_total_desc_def domain_groups_def group_domains_def
        domain_group_def)
  from c1 c2 c4 c5 c6 c7 c8 show ?thesis by simp
qed

lemma topDomains_demo_logs:
  "topDomains demo_logs =
     [\<lparr>dt_domain = ''x'', total_bytes = 650\<rparr>, \<lparr>dt_domain = ''b'', total_bytes = 2\<rparr>,
      \<lparr>dt_domain = ''a'', total_bytes = 2\<rparr>]"
  by code_simp

lemma domain_groups_demo_logs:
  "domain_groups demo_logs =
     [\<lparr>dt_domain = ''x'', total_bytes = 650\<rparr>, \<lparr>dt_domain = ''b'', total_bytes = 2\<rparr>,
      \<lparr>dt_domain = ''a'', total_bytes = 2\<rparr>]"
  by code_simp

theorem topDomains_sorted_top5_witness:
  "length (topDomains demo_logs) \<le> 5 \<and>
   \<lparr>dt_domain = ''x'', total_bytes = 650\<rparr> \<in> set (topDomains demo_logs) \<and>
   650 = (\<Sum>r \<leftarrow> filter (\<lambda>r. domain r = ''x'') demo_logs. upload_bytes r + download_bytes r) \<and>
   prefix [\<lparr>dt_domain = ''b'', total_bytes = 2\<rparr>, \<lparr>dt_domain = ''a'', total_bytes = 2\<rparr>]
          (filter (\<lambda>g. total_bytes g = 2) (domain_groups demo_logs)) \<and>
   topDomains [demo_row 3 90000 ''x'' 100 200, demo_row 4 91000 ''x'' 300 50] =
     [\<lparr>dt_domain = ''x'', total_bytes = 650\<rparr>]"
proof -
  have s: "(\<Sum>r \<leftarrow> filter (\<lambda>r. domain r = ''x'') demo_logs. upload_bytes r + download_bytes r) = 650"
    by (simp add: demo_logs_def demo_row_def)
  have e: "topDomains [demo_row 3 90000 ''x'' 100 200, demo_row 4 91000 ''x'' 300 50] =
     [\<lparr>dt_domain = ''x'', total_bytes = 650\<rparr>]"
    by code_simp
  show ?thesis
    using topDomains_sorted_top5 [of demo_logs]
    by (simp add: topDomains_demo_logs domain_groups_demo_logs s e)
qed

text \<open>
  The order of the groups is not the order in which the domains were first inserted:
  \<open>demo_logs\<close> has its first record of \<open>b\<close> before its first record of \<open>a\<close>, and so has
  the list; with the two records exchanged the list is the same.
\<close>

lemma topDomains_ties_by_domain:
  "topDomains [demo_row 1 1000 ''a'' 1 1, demo_row 2 5000 ''b'' 1 1] =
     [\<lparr>dt_domain = ''b'', total_bytes = 2\<rparr>, \<lparr>dt_domain = ''a'', total_bytes = 2\<rparr>] \<and>
   topDomains [demo_row 1 1000 ''b'' 1 1, demo_row 2 5000 ''a'' 1 1] =
     [\<lparr>dt_domain = ''b'', total_bytes = 2\<rparr>, \<lparr>dt_domain = ''a'', total_bytes = 2\<rparr>]"
  by code_simp

section \<open>The hourly history\<close>

text \<open>An hour is named by its first second: a multiple of 3600, at most 3599 below \<open>t\<close>.\<close>

lemma hour_of_bounds: "hour_of t \<le> t \<and> t < hour_of t + 3600 \<and> 3600 dvd hour_of t"
  by (simp add: hour_of_def dvd_eq_mod_eq_0 mod_diff_left_eq [symmetric]) 

lemma hour_hour_bucket: "hour (hour_bucket rows h) = h"
  by (simp add: hour_bucket_def Let_def)

lemma map_hour_history:
  "map hour (history now logs) =
   sort (remdups (map (\<lambda>r. hour_of (timestamp r)) (filter (in_last_24_hours now) logs)))"
  by (simp add: history_def Let_def comp_def hour_hour_bucket)

lemma sql_sum_Some: "xs \<noteq> [] \<Longrightarrow> sql_sum xs = Some (sum_list xs)"
  by (simp add: sql_sum_def)

text \<open>
  Claim C2. The history has one bucket for each hour in which some record of the store
  has a timestamp later than 24 hours before the clock of the query (\<open>now - 86400\<close>),
  and no other bucket; the buckets are in strictly ascending order of the hour; the
  \<open>upload\<close> of a bucket is the sum of \<open>upload_bytes\<close>, and its \<open>download\<close> the sum of
  \<open>download_bytes\<close>, over the records of that hour that are later than \<open>now - 86400\<close>, so
  that no older record contributes.
\<close>

theorem history_hourly_buckets:
  "sorted_wrt (<) (map hour (history now logs)) \<and>
   set (map hour (history now logs)) =
     {hour_of (timestamp r) | r. r \<in> set logs \<and> now - 86400 < timestamp r} \<and>
   (\<forall>b \<in> set (history now logs).
      (\<exists>r \<in> set logs. now - 86400 < timestamp r \<and> hour_of (timestamp r) = hour b) \<and>
      upload b = Some (\<Sum>r \<leftarrow> filter (\<lambda>r. now - 86400 < timestamp r \<and>
                                         hour_of (timestamp r) = hour b) logs. upload_bytes r) \<and>
      download b = Some (\<Sum>r \<leftarrow> filter (\<lambda>r. now - 86400 < timestamp r \<and>
                                         hour_of (timestamp r) = hour b) logs. download_bytes r))"
proof -
  let ?rows = "filter (in_last_24_hours now) logs"
  let ?hours = "sort (remdups (map (\<lambda>r. hour_of (timestamp r)) ?rows))"
  have a: "sorted_wrt (<) (map hour (history now logs))"
    by (simp add: map_hour_history strict_sorted_iff)
  have b: "set (map hour (history now logs)) =
     {hour_of (timestamp r) | r. r \<in> set logs \<and> now - 86400 < timestamp r}"
    unfolding map_hour_history by (auto simp: in_last_24_hours_def)
  have c: "\<forall>b \<in> set (history now logs).
      (\<exists>r \<in> set logs. now - 86400 < timestamp r \<and> hour_of (timestamp r) = hour b) \<and>
      upload b = Some (\<Sum>r \<leftarrow> filter (\<lambda>r. now - 86400 < timestamp r \<and>
                                         hour_of (timestamp r) = hour b) logs. upload_bytes r) \<and>
      download b = Some (\<Sum>r \<leftarrow> filter (\<lambda>r. now - 86400 < timestamp r \<and>
                                         hour_of (timestamp r) = hour b) logs. download_bytes r)"
  proof
    fix b assume "b \<in> set (history now logs)"
    then obtain h where h: "h \<in> set ?hours" and b: "b = hour_bucket ?rows h"
      by (auto simp: history_def Let_def)
    from h obtain r where r: "r \<in> set logs" "now - 86400 < timestamp r" "hour_of (timestamp r) = h"
      by (auto simp: in_last_24_hours_def)
    let ?grp = "filter (\<lambda>r. hour_of (timestamp r) = h) ?rows"
    have grp: "?grp = filter (\<lambda>r. now - 86400 < timestamp r \<and> hour_of (timestamp r) = h) logs"
      by (simp add: in_last_24_hours_def conj_commute)
    have "r \<in> set ?grp" using r by (simp add: in_last_24_hours_def)
    then have ne: "?grp \<noteq> []" by (metis empty_iff empty_set)
    have hb: "hour b = h" by (simp add: b hour_hour_bucket)
    have u: "upload b = Some (sum_list (map upload_bytes ?grp))"
      using ne by (simp add: b hour_bucket_def Let_def sql_sum_def)
    have dl: "download b = Some (sum_list (map download_bytes ?grp))"
      using ne by (simp add: b hour_bucket_def Let_def sql_sum_def)
    show "(\<exists>r \<in> set logs. now - 86400 < timestamp r \<and> hour_of (timestamp r) = hour b) \<and>
      upload b = Some (\<Sum>r \<leftarrow> filter (\<lambda>r. now - 86400 < timestamp r \<and>
                                         hour_of (timestamp r) = hour b) logs. upload_bytes r) \<and>
      download b = Some (\<Sum>r \<leftarrow> filter (\<lambda>r. now - 86400 < timestamp r \<and>
                                         hour_of (timestamp r) = hour b) logs. download_bytes r)"
      using r u dl unfolding hb grp by blast
  qed
  from a b c show ?thesis by blast
qed

lemma history_demo_logs:
  "history 100000 demo_logs =
     [\<lparr>hour = 46800, upload = Some 1, download = Some 1\<rparr>,
      \<lparr>hour = 90000, upload = Some 400, download = Some 250\<rparr>]"
  by code_simp

theorem history_hourly_buckets_witness:
  "\<lparr>hour = 90000, upload = Some 400, download = Some 250\<rparr> \<in> set (history 100000 demo_logs) \<and>
   Some 400 = Some (\<Sum>r \<leftarrow> filter (\<lambda>r. 100000 - 86400 < timestamp r \<and>
                        hour_of (timestamp r) = 90000) demo_logs. upload_bytes r) \<and>
   map hour (history 100000 demo_logs) = [46800, 90000]"
  using history_hourly_buckets [of 100000 demo_logs]
  by (simp add: history_demo_logs)

section \<open>The totals of the summary\<close>

text \<open>
  Claim C9. When no record of the store is later than 30 days before the clock of the
  query, the \<open>stats\<close> of the summary have NULL (\<open>None\<close>) for \<open>total_upload\<close> and
  \<open>total_download\<close>, and 0 for \<open>total_packets\<close>.
\<close>

theorem summary_stats_empty_window:
  "(\<forall>r \<in> set (traffic_logs d). timestamp r \<le> now - 30 * 86400) \<Longrightarrow>
   fst (traffic_summary now req d) =
     Answer \<lparr>status = 200,
      body = SummaryBody \<lparr>total_upload = None, total_download = None, total_packets = 0\<rparr>
               (topDomains (traffic_logs d)) (protocolStats (traffic_logs d))\<rparr>"
proof -
  assume "\<forall>r \<in> set (traffic_logs d). timestamp r \<le> now - 30 * 86400"
  then have "filter (in_last_30_days now) (traffic_logs d) = []"
    by (auto simp: filter_empty_conv in_last_30_days_def)
  then show ?thesis
    by (simp add: traffic_summary_def summary_stats_def sql_sum_def)
qed

theorem summary_stats_empty_window_witness:
  "list_all (\<lambda>r. timestamp r \<le> 3000000 - 30 * 86400) (traffic_logs demo_db) \<and>
   fst (traffic_summary 3000000 (demo_request None TrafficSummary) demo_db) =
     Answer \<lparr>status = 200,
      body = SummaryBody \<lparr>total_upload = None, total_download = None, total_packets = 0\<rparr>
               (topDomains (traffic_logs demo_db)) (protocolStats (traffic_logs demo_db))\<rparr>"
proof -
  have h: "\<forall>r \<in> set (traffic_logs demo_db). timestamp r \<le> 3000000 - 30 * 86400"
    by (simp add: demo_db_def demo_logs_def demo_row_def)
  show ?thesis
    using h summary_stats_empty_window [OF h, of "demo_request None TrafficSummary"]
    by (simp add: list_all_iff)
qed

text \<open>With a record in the window the two sums are numbers.\<close>

lemma summary_stats_demo:
  "summary_stats 100000 demo_logs =
     \<lparr>total_upload = Some 402, total_download = Some 252, total_packets = 4\<rparr>"
  by (simp add: summary_stats_def demo_logs_def demo_row_def in_last_30_days_def sql_sum_def)

section \<open>The session gate\<close>

lemma split_on_nonempty: "split_on c s \<noteq> []"
  by (induction s) (auto split: list.splits)

lemma split_on_no_sep: "c \<notin> set t \<Longrightarrow> split_on c t = [t]"
  by (induction t) auto

lemma split_on_append: "c \<notin> set a \<Longrightarrow> split_on c (a @ c # t) = a # split_on c t"
  by (induction a) auto

lemma header_token_bearer:
  "CHR '' '' \<notin> set t \<Longrightarrow> header_token (Some (''Bearer '' @ t)) = Some t"
proof -
  assume t: "CHR '' '' \<notin> set t"
  have "split_on (CHR '' '') (''Bearer'' @ CHR '' '' # t) = ''Bearer'' # split_on (CHR '' '') t"
    by (rule split_on_append) simp
  then show ?thesis using t by (simp add: header_token_def split_on_no_sep)
qed

lemma jwt_verify_None_iff:
  "jwt_verify ext t secret now = None \<longleftrightarrow>
   jwt_decode ext t secret = None \<or>
   (\<exists>c e. jwt_decode ext t secret = Some c \<and> claim_exp c = Some e \<and> e \<le> now)"
  by (auto simp: jwt_verify_def split: option.splits)

lemma jwt_verify_Some_iff:
  "jwt_verify ext t secret now = Some c \<longleftrightarrow>
   jwt_decode ext t secret = Some c \<and> (\<forall>x. claim_exp c = Some x \<longrightarrow> now < x)"
  by (auto simp: jwt_verify_def split: option.splits)

lemma app_authenticated:
  "authenticated_route (call req) \<Longrightarrow>
   app ext secret e req d =
   authenticate ext secret (clock e) (route_handler ext (clock e) (call req)) req d"
  by (cases "call req") (simp_all add: app_def)

text \<open>The two ways through the gate, for whatever handler stands behind it.\<close>

lemma authenticate_accept:
  "header_token (authorization req) = Some t \<Longrightarrow> t \<noteq> [] \<Longrightarrow>
   jwt_verify ext t secret now = Some c \<Longrightarrow>
   authenticate ext secret now h req d = h (req\<lparr>user := Some c\<rparr>) d"
  by (simp add: authenticate_def)

lemma authenticate_reject:
  "header_token (authorization req) = None \<or>
   header_token (authorization req) = Some [] \<or>
   (\<exists>t. header_token (authorization req) = Some t \<and> jwt_verify ext t secret now = None) \<Longrightarrow>
   \<exists>msg. authenticate ext secret now h req d =
           (Answer \<lparr>status = 401, body = ErrorBody msg\<rparr>, d)"
  by (auto simp: authenticate_def)

text \<open>
  Claim C4. On each of the four routes that are registered with \<open>authenticate\<close> (the
  summary, the history, and the GET and the POST of the settings) the answer is that of
  the gate in front of the handler of the route. When the request has no
  \<^verbatim>\<open>Authorization\<close> header, or the header has no second word or an empty one, or the
  token there does not decode under the secret (a malformed token or a wrong signature)
  or has an expiry that the clock has reached, the gate answers with status 401 and an
  error body and leaves the store as it is, whatever handler stands behind it: the
  handler does not run. When the token decodes and is not expired, the gate hands the
  request over with the decoded claims as its \<open>user\<close>: for every handler \<open>h\<close> the result
  is that of \<open>h\<close> on the request with \<open>user\<close> set to the claims, and so for the handler
  of the route.
\<close>

theorem authenticate_gate:
  assumes "authenticated_route (call req)"
  shows "app ext secret e req d =
           authenticate ext secret (clock e) (route_handler ext (clock e) (call req)) req d \<and>
         (header_token (authorization req) = None \<or>
          header_token (authorization req) = Some [] \<or>
          (\<exists>t. header_token (authorization req) = Some t \<and>
               (jwt_decode ext t secret = None \<or>
                (\<exists>c x. jwt_decode ext t secret = Some c \<and> claim_exp c = Some x \<and> x \<le> clock e)))
          \<longrightarrow> (\<exists>msg. fst (app ext secret e req d) =
                       Answer \<lparr>status = 401, body = ErrorBody msg\<rparr>) \<and>
              snd (app ext secret e req d) = d \<and>
              (\<forall>h. \<exists>msg. authenticate ext secret (clock e) h req d =
                       (Answer \<lparr>status = 401, body = ErrorBody msg\<rparr>, d))) \<and>
         (\<forall>t c. header_token (authorization req) = Some t \<and> t \<noteq> [] \<and>
                jwt_decode ext t secret = Some c \<and>
                (\<forall>x. claim_exp c = Some x \<longrightarrow> clock e < x)
          \<longrightarrow> app ext secret e req d =
                route_handler ext (clock e) (call req) (req\<lparr>user := Some c\<rparr>) d \<and>
              (\<forall>h. authenticate ext secret (clock e) h req d = h (req\<lparr>user := Some c\<rparr>) d))"
proof -
  have app: "app ext secret e req d =
      authenticate ext secret (clock e) (route_handler ext (clock e) (call req)) req d"
    using assms by (rule app_authenticated)
  have rej: "(\<exists>msg. fst (app ext secret e req d) =
                 Answer \<lparr>status = 401, body = ErrorBody msg\<rparr>) \<and>
             snd (app ext secret e req d) = d \<and>
             (\<forall>h. \<exists>msg. authenticate ext secret (clock e) h req d =
                 (Answer \<lparr>status = 401, body = ErrorBody msg\<rparr>, d))"
    if "header_token (authorization req) = None \<or>
        header_token (authorization req) = Some [] \<or>
        (\<exists>t. header_token (authorization req) = Some t \<and>
             (jwt_decode ext t secret = None \<or>
              (\<exists>c x. jwt_decode ext t secret = Some c \<and> claim_exp c = Some x \<and> x \<le> clock e)))"
  proof -
    from that have r: "header_token (authorization req) = None \<or>
        header_token (authorization req) = Some [] \<or>
        (\<exists>t. header_token (authorization req) = Some t \<and>
             jwt_verify ext t secret (clock e) = None)"
      by (simp add: jwt_verify_None_iff)
    have all: "\<exists>msg. authenticate ext secret (clock e) h req d =
                  (Answer \<lparr>status = 401, body = ErrorBody msg\<rparr>, d)" for h
      using r by (rule authenticate_reject)
    from all [of "route_handler ext (clock e) (call req)"]
    have "(\<exists>msg. fst (app ext secret e req d) =
                 Answer \<lparr>status = 401, body = ErrorBody msg\<rparr>) \<and>
          snd (app ext secret e req d) = d"
      unfolding app by auto
    with all show ?thesis by blast
  qed
  have acc: "app ext secret e req d =
               route_handler ext (clock e) (call req) (req\<lparr>user := Some c\<rparr>) d \<and>
             (\<forall>h. authenticate ext secret (clock e) h req d = h (req\<lparr>user := Some c\<rparr>) d)"
    if "header_token (authorization req) = Some t \<and> t \<noteq> [] \<and>
        jwt_decode ext t secret = Some c \<and>
        (\<forall>x. claim_exp c = Some x \<longrightarrow> clock e < x)" for t c
  proof -
    from that have t: "header_token (authorization req) = Some t" "t \<noteq> []"
      and v: "jwt_verify ext t secret (clock e) = Some c"
      by (simp_all add: jwt_verify_Some_iff)
    have all: "authenticate ext secret (clock e) h req d = h (req\<lparr>user := Some c\<rparr>) d" for h
      using t v by (rule authenticate_accept)
    show ?thesis
      unfolding app using all by blast
  qed
  show ?thesis
  proof (intro conjI)
    show "app ext secret e req d =
      authenticate ext secret (clock e) (route_handler ext (clock e) (call req)) req d"
      by (rule app)
  next
    show "header_token (authorization req) = None \<or>
          header_token (authorization req) = Some [] \<or>
          (\<exists>t. header_token (authorization req) = Some t \<and>
               (jwt_decode ext t secret = None \<or>
                (\<exists>c x. jwt_decode ext t secret = Some c \<and> claim_exp c = Some x \<and> x \<le> clock e)))
          \<longrightarrow> (\<exists>msg. fst (app ext secret e req d) =
                       Answer \<lparr>status = 401, body = ErrorBody msg\<rparr>) \<and>
              snd (app ext secret e req d) = d \<and>
              (\<forall>h. \<exists>msg. authenticate ext secret (clock e) h req d =
                       (Answer \<lparr>status = 401, body = ErrorBody msg\<rparr>, d))"
      using rej by (intro impI)
  next
    show "\<forall>t c. header_token (authorization req) = Some t \<and> t \<noteq> [] \<and>
                jwt_decode ext t secret = Some c \<and>
                (\<forall>x. claim_exp c = Some x \<longrightarrow> clock e < x)
          \<longrightarrow> app ext secret e req d =
                route_handler ext (clock e) (call req) (req\<lparr>user := Some c\<rparr>) d \<and>
              (\<forall>h. authenticate ext secret (clock e) h req d = h (req\<lparr>user := Some c\<rparr>) d)"
      using acc by (intro allI impI)
  qed
qed

theorem authenticate_gate_witness:
  "authenticated_route (call (demo_request None TrafficSummary)) \<and>
   header_token (authorization (demo_request None TrafficSummary)) = None \<and>
   snd (app demo_ext ''smart-traffic-secret'' demo_env (demo_request None TrafficSummary) demo_db) =
     demo_db \<and>
   authenticate demo_ext ''smart-traffic-secret'' (clock demo_env) whoami
     (demo_request None TrafficSummary) demo_db =
     (Answer \<lparr>status = 401, body = ErrorBody ''Unauthorized''\<rparr>, demo_db) \<and>
   header_token (authorization
     (demo_request (Some ''Bearer header.expiring.signature'') (PostSettings JNull JNull))) =
     Some ''header.expiring.signature'' \<and>
   snd (app demo_ext ''smart-traffic-secret'' demo_env
     (demo_request (Some ''Bearer header.expiring.signature'') (PostSettings JNull JNull))
     demo_db) = demo_db \<and>
   authenticate demo_ext ''smart-traffic-secret'' (clock demo_env) whoami
     (demo_request (Some ''Bearer header.expiring.signature'') (PostSettings JNull JNull))
     demo_db =
     (Answer \<lparr>status = 401, body = ErrorBody ''Invalid token''\<rparr>, demo_db) \<and>
   app demo_ext ''smart-traffic-secret'' demo_env
     (demo_request (Some ''Bearer header.payload.signature'') GetSettings) demo_db =
   get_settings
     ((demo_request (Some ''Bearer header.payload.signature'') GetSettings)
        \<lparr>user := Some demo_claims\<rparr>) demo_db \<and>
   authenticate demo_ext ''smart-traffic-secret'' (clock demo_env) whoami
     (demo_request (Some ''Bearer header.payload.signature'') GetSettings) demo_db =
     (Answer \<lparr>status = 200, body = ErrorBody ''alice''\<rparr>, demo_db)"
proof -
  let ?R1 = "demo_request None TrafficSummary"
  let ?R2 = "demo_request (Some ''Bearer header.expiring.signature'') (PostSettings JNull JNull)"
  let ?R3 = "demo_request (Some ''Bearer header.payload.signature'') GetSettings"
  have a1: "authenticated_route (call ?R1)" and a2: "authenticated_route (call ?R2)"
    and a3: "authenticated_route (call ?R3)"
    by (simp_all add: demo_request_def)
  have t1: "header_token (authorization ?R1) = None"
    by (simp add: demo_request_def header_token_def)
  have t2: "header_token (authorization ?R2) = Some ''header.expiring.signature''"
    by (simp add: demo_request_def header_token_def)
  have t3: "header_token (authorization ?R3) = Some ''header.payload.signature''"
    by (simp add: demo_request_def header_token_def)
  have d2: "jwt_decode demo_ext ''header.expiring.signature'' ''smart-traffic-secret'' =
              Some (demo_claims\<lparr>claim_exp := Some 500\<rparr>)"
    by (simp add: demo_ext_def)
  have x2: "claim_exp (demo_claims\<lparr>claim_exp := Some 500\<rparr>) = Some 500 \<and> 500 \<le> clock demo_env"
    by (simp add: demo_env_def)
  have d3: "jwt_decode demo_ext ''header.payload.signature'' ''smart-traffic-secret'' =
              Some demo_claims"
    by (simp add: demo_ext_def)
  have x3: "\<forall>x. claim_exp demo_claims = Some x \<longrightarrow> clock demo_env < x"
    by (simp add: demo_claims_def)
  have ne3: "''header.payload.signature'' \<noteq> []" by simp
  note g1 = authenticate_gate [OF a1, of demo_ext "''smart-traffic-secret''" demo_env demo_db]
  note g2 = authenticate_gate [OF a2, of demo_ext "''smart-traffic-secret''" demo_env demo_db]
  note g3 = authenticate_gate [OF a3, of demo_ext "''smart-traffic-secret''" demo_env demo_db]
  have c1: "snd (app demo_ext ''smart-traffic-secret'' demo_env ?R1 demo_db) = demo_db"
    using g1 t1 by blast
  obtain m1 where m1: "authenticate demo_ext ''smart-traffic-secret'' (clock demo_env) whoami
      ?R1 demo_db = (Answer \<lparr>status = 401, body = ErrorBody m1\<rparr>, demo_db)"
    using g1 t1 by blast
  have "authenticate demo_ext ''smart-traffic-secret'' (clock demo_env) whoami ?R1 demo_db =
      (Answer \<lparr>status = 401, body = ErrorBody ''Unauthorized''\<rparr>, demo_db)"
    by (simp add: authenticate_def t1)
  with m1 have w1: "authenticate demo_ext ''smart-traffic-secret'' (clock demo_env) whoami
      ?R1 demo_db = (Answer \<lparr>status = 401, body = ErrorBody ''Unauthorized''\<rparr>, demo_db)"
    by simp
  have c2: "snd (app demo_ext ''smart-traffic-secret'' demo_env ?R2 demo_db) = demo_db"
    using g2 t2 d2 x2 by blast
  obtain m2 where m2: "authenticate demo_ext ''smart-traffic-secret'' (clock demo_env) whoami
      ?R2 demo_db = (Answer \<lparr>status = 401, body = ErrorBody m2\<rparr>, demo_db)"
    using g2 t2 d2 x2 by blast
  have "authenticate demo_ext ''smart-traffic-secret'' (clock demo_env) whoami ?R2 demo_db =
      (Answer \<lparr>status = 401, body = ErrorBody ''Invalid token''\<rparr>, demo_db)"
    by (simp add: authenticate_def t2 jwt_verify_def d2 demo_env_def)
  with m2 have w2: "authenticate demo_ext ''smart-traffic-secret'' (clock demo_env) whoami
      ?R2 demo_db = (Answer \<lparr>status = 401, body = ErrorBody ''Invalid token''\<rparr>, demo_db)"
    by simp
  have c3: "app demo_ext ''smart-traffic-secret'' demo_env ?R3 demo_db =
            route_handler demo_ext (clock demo_env) (call ?R3)
              (?R3\<lparr>user := Some demo_claims\<rparr>) demo_db"
    using g3 t3 d3 x3 ne3 by blast
  have c3': "route_handler demo_ext (clock demo_env) (call ?R3) = get_settings"
    by (simp add: demo_request_def)
  have "authenticate demo_ext ''smart-traffic-secret'' (clock demo_env) whoami ?R3 demo_db =
      whoami (?R3\<lparr>user := Some demo_claims\<rparr>) demo_db"
    using g3 t3 d3 x3 ne3 by blast
  then have w3: "authenticate demo_ext ''smart-traffic-secret'' (clock demo_env) whoami
      ?R3 demo_db = (Answer \<lparr>status = 200, body = ErrorBody ''alice''\<rparr>, demo_db)"
    by (simp add: whoami_def demo_request_def demo_claims_def)
  from a1 t1 c1 w1 t2 c2 w2 c3 w3 show ?thesis
    unfolding c3' by blast
qed

text \<open>
  The first word of the header is not looked at: any scheme in front of a good token
  passes the gate.
\<close>

lemma authenticate_any_scheme:
  "app demo_ext ''smart-traffic-secret'' demo_env
     (demo_request (Some ''Basic header.payload.signature'') GetSettings) demo_db =
   get_settings
     ((demo_request (Some ''Basic header.payload.signature'') GetSettings)
        \<lparr>user := Some demo_claims\<rparr>) demo_db"
  by (simp add: app_def demo_request_def authenticate_def header_token_def jwt_verify_def
      demo_ext_def demo_env_def demo_claims_def)

section \<open>The login\<close>

lemma find_filter: "find P xs = (case filter P xs of [] \<Rightarrow> None | x # _ \<Rightarrow> Some x)"
  by (induction xs) auto

lemma express_json_string [simp]: "express_json ext (JStr s) = JStr s"
  by (simp add: express_json_def)

lemma express_json_absent [simp]:
  "express_json ext JUndefined = JUndefined" "express_json ext JNull = JNull"
  "express_json ext (JBool b) = JBool b"
  by (simp_all add: express_json_def)

lemma login_bad:
  "no_such_user d mail \<or> wrong_password ext d mail password \<Longrightarrow>
   login ext secret now (JStr mail) (JStr password) d =
     (Answer \<lparr>status = 401, body = ErrorBody ''Invalid credentials''\<rparr>, d)"
  by (auto simp: login_def user_by_email_def no_such_user_def wrong_password_def find_filter
      filter_empty_conv split: list.splits)

lemma login_good:
  "\<not> no_such_user d mail \<Longrightarrow> \<not> wrong_password ext d mail password \<Longrightarrow>
   \<exists>tok uname umail. fst (login ext secret now (JStr mail) (JStr password) d) =
     Answer \<lparr>status = 200, body = TokenBody tok uname umail\<rparr>"
  by (auto simp: login_def user_by_email_def no_such_user_def wrong_password_def find_filter
      filter_empty_conv split: list.splits)

text \<open>
  With an email and a password that are strings the two failures of a login have one
  answer.
\<close>

lemma login_string_password_failures:
  assumes "call req1 = Login (JStr mail1) (JStr password1)"
    and "call req2 = Login (JStr mail2) (JStr password2)"
    and "no_such_user d1 mail1 \<or> wrong_password ext d1 mail1 password1"
    and "no_such_user d2 mail2 \<or> wrong_password ext d2 mail2 password2"
  shows "fst (app ext secret e1 req1 d1) =
           Answer \<lparr>status = 401, body = ErrorBody ''Invalid credentials''\<rparr> \<and>
         fst (app ext secret e2 req2 d2) = fst (app ext secret e1 req1 d1) \<and>
         snd (app ext secret e1 req1 d1) = d1"
  using assms by (simp add: app_def login_bad)

text \<open>
  With a password that is not a string, and so with a body that has none, the answer
  tells whether a user has the email: without one the handler answers 401, with one
  \<^verbatim>\<open>bcrypt.compare\<close> rejects and the handler sends nothing.
\<close>

lemma express_json_not_string:
  "\<forall>p. v \<noteq> JStr p \<Longrightarrow> express_json ext v \<noteq> JStr p"
  by (cases v) (simp_all add: express_json_def)

lemma login_password_not_string:
  assumes "call req = Login (JStr mail) password" and "\<forall>p. password \<noteq> JStr p"
  shows "(no_such_user d mail \<longrightarrow>
            app ext secret e req d =
              (Answer \<lparr>status = 401, body = ErrorBody ''Invalid credentials''\<rparr>, d)) \<and>
         (\<not> no_such_user d mail \<longrightarrow>
            app ext secret e req d =
              (Rejected (Error (''Illegal arguments: '' @
                 js_typeof (express_json ext password) @ '', string'')), d))"
proof -
  have p: "\<forall>p. express_json ext password \<noteq> JStr p"
    using assms(2) by (simp add: express_json_not_string)
  show ?thesis
    using assms(1) p
    by (cases "express_json ext password")
       (auto simp: app_def login_def user_by_email_def no_such_user_def find_filter
          filter_empty_conv split: list.splits)
qed

text \<open>
  Claim C7, where the code breaks it. For a login with bad credentials the answer is to
  be the one generic error whether the email matches no user or matches a user whose
  hash does not verify. For a body without a password the handler gives that answer, 401
  with \<^verbatim>\<open>{error: "Invalid credentials"}\<close>, when no user has the email, and none at all
  when a user has it: the promise of the handler is rejected with the
  \<^verbatim>\<open>Illegal arguments\<close> of \<^verbatim>\<open>bcrypt.compare\<close>.
\<close>

theorem login_without_password_tells_users_apart:
  "fst (app demo_ext ''smart-traffic-secret'' demo_env
          (demo_request None (Login (JStr ''bob@example.org'') JUndefined)) demo_db) =
     Answer \<lparr>status = 401, body = ErrorBody ''Invalid credentials''\<rparr> \<and>
   fst (app demo_ext ''smart-traffic-secret'' demo_env
          (demo_request None (Login (JStr ''alice@example.org'') JUndefined)) demo_db) =
     Rejected (Error ''Illegal arguments: undefined, string'')"
  by (simp add: app_def demo_request_def login_def user_by_email_def demo_db_def)

section \<open>The tokens of the login\<close>

lemma find_email_Some:
  "find (\<lambda>u. email u = mail) (users d) = Some u \<Longrightarrow> bcrypt_compare ext password (password_hash u) \<Longrightarrow>
   login ext secret now (JStr mail) (JStr password) d =
     (Answer \<lparr>status = 200,
       body = TokenBody (jwt_encode ext (jwt_claims (user_id u) (username u) None now) secret)
                (username u) (email u)\<rparr>, d)"
  by (simp add: login_def user_by_email_def jwt_sign_def)

text \<open>
  Claim C10. A successful login signs its token without an expiry: the claims have the
  id and the name of the user and no \<open>exp\<close>. Provided the package decodes the token it
  has just encoded, under the same secret, to the claims that were signed, and the token
  is a non-empty word without a space (as the serialisation of a token is), the
  verification accepts the token at every time, and every route behind \<open>authenticate\<close>
  runs its handler for a request that carries it, at every time and on every store.
\<close>

theorem issued_token_never_expires:
  assumes user: "find (\<lambda>u. email u = mail) (users d) = Some u"
    and password: "bcrypt_compare ext password (password_hash u)"
    and login: "call req = Login (JStr mail) (JStr password)"
    and codec: "jwt_decode ext
                  (jwt_encode ext (jwt_claims (user_id u) (username u) None (clock e)) secret)
                  secret =
                Some (jwt_claims (user_id u) (username u) None (clock e))"
    and shape: "jwt_encode ext (jwt_claims (user_id u) (username u) None (clock e)) secret \<noteq> []"
      "CHR '' '' \<notin> set (jwt_encode ext (jwt_claims (user_id u) (username u) None (clock e)) secret)"
  shows "\<exists>tok c.
           fst (app ext secret e req d) =
             Answer \<lparr>status = 200, body = TokenBody tok (username u) (email u)\<rparr> \<and>
           claim_exp c = None \<and> claim_id c = user_id u \<and> claim_username c = username u \<and>
           (\<forall>later. jwt_verify ext tok secret later = Some c) \<and>
           (\<forall>e' req' d'. authenticated_route (call req') \<and>
                         authorization req' = Some (''Bearer '' @ tok) \<longrightarrow>
              app ext secret e' req' d' =
              route_handler ext (clock e') (call req') (req'\<lparr>user := Some c\<rparr>) d')"
proof -
  let ?c = "jwt_claims (user_id u) (username u) None (clock e)"
  let ?tok = "jwt_encode ext ?c secret"
  have res: "fst (app ext secret e req d) =
             Answer \<lparr>status = 200, body = TokenBody ?tok (username u) (email u)\<rparr>"
    using user password login by (simp add: app_def find_email_Some)
  have noexp: "claim_exp ?c = None" "claim_id ?c = user_id u" "claim_username ?c = username u"
    by (simp_all add: jwt_claims_def)
  have verify: "\<forall>later. jwt_verify ext ?tok secret later = Some ?c"
    using codec noexp by (simp add: jwt_verify_def)
  have hdr: "header_token (Some (''Bearer '' @ ?tok)) = Some ?tok"
    using shape(2) by (rule header_token_bearer)
  have routes: "\<forall>e' req' d'. authenticated_route (call req') \<and>
                         authorization req' = Some (''Bearer '' @ ?tok) \<longrightarrow>
              app ext secret e' req' d' =
              route_handler ext (clock e') (call req') (req'\<lparr>user := Some ?c\<rparr>) d'"
  proof (intro allI impI)
    fix e' :: env and req' :: request and d' :: db
    assume a: "authenticated_route (call req') \<and> authorization req' = Some (''Bearer '' @ ?tok)"
    then have "app ext secret e' req' d' =
       authenticate ext secret (clock e') (route_handler ext (clock e') (call req')) req' d'"
      by (simp add: app_authenticated)
    also have "\<dots> = route_handler ext (clock e') (call req') (req'\<lparr>user := Some ?c\<rparr>) d'"
      using a hdr shape(1) verify by (simp add: authenticate_def)
    finally show "app ext secret e' req' d' =
              route_handler ext (clock e') (call req') (req'\<lparr>user := Some ?c\<rparr>) d'" .
  qed
  from res noexp verify routes show ?thesis by blast
qed

theorem issued_token_never_expires_witness:
  "fst (app demo_ext ''smart-traffic-secret'' demo_env
          (demo_request None (Login (JStr ''alice@example.org'') (JStr ''wonderland''))) demo_db) =
     Answer \<lparr>status = 200,
      body = TokenBody ''header.payload.signature'' ''alice'' ''alice@example.org''\<rparr> \<and>
   jwt_verify demo_ext ''header.payload.signature'' ''smart-traffic-secret'' 4102444800 =
     Some demo_claims \<and>
   app demo_ext ''smart-traffic-secret'' \<lparr>clock = 4102444800, salt = ''salt''\<rparr>
     (demo_request (Some ''Bearer header.payload.signature'') TrafficHistory) demo_db =
   traffic_history 4102444800
     ((demo_request (Some ''Bearer header.payload.signature'') TrafficHistory)
        \<lparr>user := Some demo_claims\<rparr>) demo_db"
proof -
  let ?u = "\<lparr>user_id = 1, username = ''alice'', email = ''alice@example.org'',
             password_hash = ''saltwonderland''\<rparr>"
  let ?req = "demo_request None (Login (JStr ''alice@example.org'') (JStr ''wonderland''))"
  have c: "jwt_claims (user_id ?u) (username ?u) None (clock demo_env) = demo_claims"
    by (simp add: jwt_claims_def demo_claims_def demo_env_def)
  have tok: "jwt_encode demo_ext demo_claims ''smart-traffic-secret'' = ''header.payload.signature''"
    by (simp add: demo_ext_def)
  have h1: "find (\<lambda>u. email u = ''alice@example.org'') (users demo_db) = Some ?u"
    by (simp add: demo_db_def)
  have h2: "bcrypt_compare demo_ext ''wonderland'' (password_hash ?u)"
    by (simp add: demo_ext_def)
  have h3: "call ?req = Login (JStr ''alice@example.org'') (JStr ''wonderland'')"
    by (simp add: demo_request_def)
  have h4: "jwt_decode demo_ext
              (jwt_encode demo_ext (jwt_claims (user_id ?u) (username ?u) None (clock demo_env))
                 ''smart-traffic-secret'') ''smart-traffic-secret'' =
            Some (jwt_claims (user_id ?u) (username ?u) None (clock demo_env))"
    unfolding c tok by (simp add: demo_ext_def)
  have h5: "jwt_encode demo_ext (jwt_claims (user_id ?u) (username ?u) None (clock demo_env))
              ''smart-traffic-secret'' \<noteq> []"
    unfolding c tok by simp
  have h6: "CHR '' '' \<notin> set (jwt_encode demo_ext
              (jwt_claims (user_id ?u) (username ?u) None (clock demo_env))
              ''smart-traffic-secret'')"
    unfolding c tok by simp
  obtain t cl where
    r: "fst (app demo_ext ''smart-traffic-secret'' demo_env ?req demo_db) =
          Answer \<lparr>status = 200, body = TokenBody t (username ?u) (email ?u)\<rparr>"
    and v: "\<forall>later. jwt_verify demo_ext t ''smart-traffic-secret'' later = Some cl"
    and a: "\<forall>e' req' d'. authenticated_route (call req') \<and>
                         authorization req' = Some (''Bearer '' @ t) \<longrightarrow>
              app demo_ext ''smart-traffic-secret'' e' req' d' =
              route_handler demo_ext (clock e') (call req') (req'\<lparr>user := Some cl\<rparr>) d'"
    using issued_token_never_expires [OF h1 h2 h3 h4 h5 h6] by blast
  have "fst (app demo_ext ''smart-traffic-secret'' demo_env ?req demo_db) =
     Answer \<lparr>status = 200,
      body = TokenBody ''header.payload.signature'' ''alice'' ''alice@example.org''\<rparr>"
    by (simp add: app_def demo_request_def login_def user_by_email_def demo_db_def demo_ext_def
        jwt_sign_def)
  with r have t: "t = ''header.payload.signature''" by simp
  have "jwt_verify demo_ext ''header.payload.signature'' ''smart-traffic-secret'' 0 = Some demo_claims"
    by (simp add: jwt_verify_def demo_ext_def demo_claims_def)
  with v t have cl: "cl = demo_claims" by simp
  let ?r = "demo_request (Some ''Bearer header.payload.signature'') TrafficHistory"
  have "authenticated_route (call ?r) \<and> authorization ?r = Some (''Bearer '' @ t)"
    by (simp add: demo_request_def t)
  with a have "app demo_ext ''smart-traffic-secret'' \<lparr>clock = 4102444800, salt = ''salt''\<rparr> ?r demo_db =
     route_handler demo_ext (clock \<lparr>clock = 4102444800, salt = ''salt''\<rparr>) (call ?r)
       (?r\<lparr>user := Some cl\<rparr>) demo_db"
    by blast
  moreover have "route_handler demo_ext (clock \<lparr>clock = 4102444800, salt = ''salt''\<rparr>) (call ?r) =
      traffic_history 4102444800"
    by (simp add: demo_request_def)
  ultimately show ?thesis
    using r v t cl by simp
qed

section \<open>The settings\<close>






lemma demo_settings_ok: "settings_ok demo_db"
  by (simp add: settings_ok_def demo_db_def)







section \<open>The generator\<close>

text \<open>
  The rounded product of a draw and a bound \<open>n\<close> of at least 1 stays below \<open>n\<close>: the
  draw is at most \<open>1 - u\<close> for \<open>u = 1 / 2 ^ 53\<close>, the rounding adds at most the fraction
  \<open>u\<close> and \<open>1 / 2 ^ 1075\<close>, and \<open>n * (1 - u) * (1 + u) + 1 / 2 ^ 1075 < n\<close>.
\<close>

lemma fmul_bounds:
  assumes "double_mul fmul" and "random_draw r" and "1 \<le> n"
  shows "0 \<le> fmul r n \<and> fmul r n < n"
proof -
  define u :: real where "u = 1 / 2 ^ 53"
  define v :: real where "v = 1 / 2 ^ 1075"
  have r: "0 \<le> r" "r \<le> 1 - u"
    using assms(2) by (simp_all add: random_draw_def u_def)
  have n: "0 \<le> n" using assms(3) by simp
  have u: "0 < u" by (simp add: u_def)
  have "(2::real) ^ 106 < 2 ^ 1075"
    by (rule power_strict_increasing) simp_all
  then have "1 / (2::real) ^ 1075 < 1 / 2 ^ 106"
    by (simp add: frac_less2)
  moreover have "u * u = 1 / 2 ^ 106"
    by (simp add: u_def)
  ultimately have vu: "v < u * u" by (simp add: v_def)
  have m: "0 \<le> fmul r n" "\<bar>fmul r n - r * n\<bar> \<le> r * n * u + v"
    using assms(1) r(1) n by (simp_all add: double_mul_def u_def v_def)
  have "r * n \<le> (1 - u) * n"
    using r(2) n by (rule mult_right_mono)
  moreover have "0 \<le> 1 + u" using u by simp
  ultimately have "r * n * (1 + u) \<le> (1 - u) * n * (1 + u)"
    by (rule mult_right_mono)
  moreover have "(1 - u) * n * (1 + u) = n - n * (u * u)"
    by (simp add: algebra_simps)
  moreover have "u * u \<le> n * (u * u)"
    using assms(3) u by simp
  moreover have "fmul r n \<le> r * n * (1 + u) + v"
    using m(2) by (simp add: algebra_simps abs_le_iff)
  ultimately have "fmul r n < n"
    using vu by linarith
  with m(1) show ?thesis by simp
qed

lemma random_int_bounds:
  assumes "double_mul fmul" and "random_draw r" and "1 \<le> n"
  shows "0 \<le> random_int fmul r (of_int n) \<and> random_int fmul r (of_int n) < n"
proof -
  have "0 \<le> fmul r (of_int n) \<and> fmul r (of_int n) < of_int n"
    using assms by (intro fmul_bounds) simp_all
  then show ?thesis
    by (simp add: random_int_def floor_less_iff)
qed

lemma js_index_in_range:
  "0 \<le> i \<Longrightarrow> i < int (length xs) \<Longrightarrow> \<exists>x \<in> set xs. js_index xs i = Some x"
  by (simp add: js_index_def)

lemma ws_send_open: "readyState c = OPEN \<Longrightarrow>
  ws_send c m = Inr (if link_ok c then Delivered (client_id c) m else Lost (client_id c) m)"
  by (simp add: ws_send_def)

lemma broadcast_all_open:
  "broadcast m cs =
   Inr (map (\<lambda>c. if link_ok c then Delivered (client_id c) m else Lost (client_id c) m)
          (filter (\<lambda>c. readyState c = OPEN) cs))"
  by (induction cs) (simp_all add: ws_send_open)

lemma tick_store:
  "fst (tick fmul inp d) = d \<or>
   (\<exists>row. fst (tick fmul inp d) = d\<lparr>traffic_logs := traffic_logs d @ [row]\<rparr>)"
  by (auto simp: tick_def Let_def split: option.splits)

lemma tick_valid:
  assumes "double_mul fmul" and "valid_draws inp"
  shows "\<exists>row. tick fmul inp d =
           (d\<lparr>traffic_logs := traffic_logs d @ [row]\<rparr>,
            broadcast (TRAFFIC_UPDATE (row\<lparr>timestamp := js_now inp\<rparr>)) (clients inp)) \<and>
         timestamp row = db_now inp \<and>
         domain row \<in> set domains \<and> protocol row \<in> set protocols \<and>
         0 \<le> upload_bytes row \<and> upload_bytes row < 50000 \<and>
         0 \<le> download_bytes row \<and> download_bytes row < 500000"
proof -
  have draws: "random_draw (r_domain inp)" "random_draw (r_protocol inp)"
    "random_draw (r_upload inp)" "random_draw (r_download inp)"
    using assms(2) by (simp_all add: valid_draws_def)
  have "0 \<le> random_int fmul (r_domain inp) (of_int 10) \<and>
        random_int fmul (r_domain inp) (of_int 10) < 10"
    using assms(1) draws(1) by (rule random_int_bounds) simp
  then obtain dm where dm: "dm \<in> set domains"
      "js_index domains (random_int fmul (r_domain inp) (real (length domains))) = Some dm"
    using js_index_in_range [of "random_int fmul (r_domain inp) 10" domains]
    by (auto simp: domains_def)
  have "0 \<le> random_int fmul (r_protocol inp) (of_int 5) \<and>
        random_int fmul (r_protocol inp) (of_int 5) < 5"
    using assms(1) draws(2) by (rule random_int_bounds) simp
  then obtain pr where pr: "pr \<in> set protocols"
      "js_index protocols (random_int fmul (r_protocol inp) (real (length protocols))) = Some pr"
    using js_index_in_range [of "random_int fmul (r_protocol inp) 5" protocols]
    by (auto simp: protocols_def)
  have up: "0 \<le> random_int fmul (r_upload inp) (of_int 50000) \<and>
        random_int fmul (r_upload inp) (of_int 50000) < 50000"
    using assms(1) draws(3) by (rule random_int_bounds) simp
  have down: "0 \<le> random_int fmul (r_download inp) (of_int 500000) \<and>
        random_int fmul (r_download inp) (of_int 500000) < 500000"
    using assms(1) draws(4) by (rule random_int_bounds) simp
  let ?row = "\<lparr>log_id = next_rowid (map log_id (traffic_logs d)), timestamp = db_now inp,
      source_ip = ''192.168.1.'' @ string_of_int (random_int fmul (r_source inp) 255),
      destination_ip = ''104.26.12.'' @ string_of_int (random_int fmul (r_dest inp) 255),
      domain = dm, protocol = pr,
      upload_bytes = random_int fmul (r_upload inp) 50000,
      download_bytes = random_int fmul (r_download inp) 500000\<rparr>"
  have "tick fmul inp d =
           (d\<lparr>traffic_logs := traffic_logs d @ [?row]\<rparr>,
            broadcast (TRAFFIC_UPDATE (?row\<lparr>timestamp := js_now inp\<rparr>)) (clients inp))"
    using dm(2) pr(2) by (simp add: tick_def Let_def)
  then show ?thesis
    using dm(1) pr(1) up down by (intro exI [of _ ?row]) simp
qed

lemma double_mul_exact: "double_mul (\<lambda>x y. x * y)"
  by (simp add: double_mul_def)

lemma valid_draws_demo: "valid_draws demo_input"
  by (simp add: valid_draws_def random_draw_def demo_input_def)

text \<open>
  Claim C3. For every draw of \<^verbatim>\<open>Math.random()\<close> (a double from 0 up to, but not
  reaching, 1) and the rounded multiplication of doubles, the tick inserts one record,
  the one it sends to the subscribers, with \<open>upload_bytes\<close> from 0 to 49999,
  \<open>download_bytes\<close> from 0 to 499999, a domain from the fixed list of 10 domains and a
  protocol from the fixed list of 5 protocols.
\<close>

theorem generated_record_within_bounds:
  assumes "double_mul fmul" and "valid_draws inp"
  shows "(\<exists>row. traffic_logs (fst (tick fmul inp d)) = traffic_logs d @ [row] \<and>
           snd (tick fmul inp d) =
             broadcast (TRAFFIC_UPDATE (row\<lparr>timestamp := js_now inp\<rparr>)) (clients inp) \<and>
           0 \<le> upload_bytes row \<and> upload_bytes row < 50000 \<and>
           0 \<le> download_bytes row \<and> download_bytes row < 500000 \<and>
           domain row \<in> set domains \<and> protocol row \<in> set protocols) \<and>
         length domains = 10 \<and> distinct domains \<and>
         length protocols = 5 \<and> distinct protocols"
proof -
  obtain row where "tick fmul inp d =
           (d\<lparr>traffic_logs := traffic_logs d @ [row]\<rparr>,
            broadcast (TRAFFIC_UPDATE (row\<lparr>timestamp := js_now inp\<rparr>)) (clients inp))"
      "domain row \<in> set domains" "protocol row \<in> set protocols"
      "0 \<le> upload_bytes row" "upload_bytes row < 50000"
      "0 \<le> download_bytes row" "download_bytes row < 500000"
    using tick_valid [OF assms, of d] by blast
  then have "\<exists>row. traffic_logs (fst (tick fmul inp d)) = traffic_logs d @ [row] \<and>
           snd (tick fmul inp d) =
             broadcast (TRAFFIC_UPDATE (row\<lparr>timestamp := js_now inp\<rparr>)) (clients inp) \<and>
           0 \<le> upload_bytes row \<and> upload_bytes row < 50000 \<and>
           0 \<le> download_bytes row \<and> download_bytes row < 500000 \<and>
           domain row \<in> set domains \<and> protocol row \<in> set protocols"
    by (intro exI [of _ row]) simp
  moreover have "length domains = 10 \<and> distinct domains"
    by (simp add: domains_def)
  moreover have "length protocols = 5 \<and> distinct protocols"
    by (simp add: protocols_def)
  ultimately show ?thesis by blast
qed

lemma tick_demo:
  "traffic_logs (fst (tick (\<lambda>x y. x * y) demo_input demo_db)) =
     traffic_logs demo_db @
       [\<lparr>log_id = 5, timestamp = 92000,
         source_ip = ''192.168.1.'' @ string_of_int 127,
         destination_ip = ''104.26.12.'' @ string_of_int 0,
         domain = ''youtube.com'', protocol = ''DNS'',
         upload_bytes = 6250, download_bytes = 375000\<rparr>]"
  by (simp add: tick_def Let_def demo_input_def random_int_def js_index_def domains_def
      protocols_def demo_db_def demo_logs_def demo_row_def next_rowid_def)

theorem generated_record_within_bounds_witness:
  "double_mul (\<lambda>x y. x * y) \<and> valid_draws demo_input \<and>
   upload_bytes (last (traffic_logs (fst (tick (\<lambda>x y. x * y) demo_input demo_db)))) = 6250 \<and>
   download_bytes (last (traffic_logs (fst (tick (\<lambda>x y. x * y) demo_input demo_db)))) = 375000 \<and>
   domain (last (traffic_logs (fst (tick (\<lambda>x y. x * y) demo_input demo_db)))) = ''youtube.com'' \<and>
   ''youtube.com'' \<in> set domains \<and>
   protocol (last (traffic_logs (fst (tick (\<lambda>x y. x * y) demo_input demo_db)))) = ''DNS'' \<and>
   ''DNS'' \<in> set protocols"
proof -
  obtain row where
    "traffic_logs (fst (tick (\<lambda>x y. x * y) demo_input demo_db)) = traffic_logs demo_db @ [row]"
    "domain row \<in> set domains" "protocol row \<in> set protocols"
    using generated_record_within_bounds [OF double_mul_exact valid_draws_demo, of demo_db]
    by blast
  then show ?thesis
    using double_mul_exact valid_draws_demo by (auto simp: tick_demo)
qed

section \<open>The broadcast\<close>

lemma run_ticks_valid:
  assumes "double_mul fmul"
  shows "\<forall>i \<in> set inps. valid_draws i \<Longrightarrow>
    \<exists>rows evss. run_ticks fmul inps d = (d\<lparr>traffic_logs := traffic_logs d @ rows\<rparr>, Inr evss) \<and>
      length rows = length inps \<and> length evss = length inps"
proof (induction inps arbitrary: d)
  case Nil
  show ?case by (intro exI [of _ "[]"]) simp
next
  case (Cons inp inps)
  then have "valid_draws inp" by simp
  from tick_valid [OF assms this, of d] obtain row where
    t: "tick fmul inp d =
          (d\<lparr>traffic_logs := traffic_logs d @ [row]\<rparr>,
           broadcast (TRAFFIC_UPDATE (row\<lparr>timestamp := js_now inp\<rparr>)) (clients inp))"
    by blast
  let ?d = "d\<lparr>traffic_logs := traffic_logs d @ [row]\<rparr>"
  from Cons obtain rows evss where
    r: "run_ticks fmul inps ?d = (?d\<lparr>traffic_logs := traffic_logs ?d @ rows\<rparr>, Inr evss)"
      "length rows = length inps" "length evss = length inps"
    by (metis list.set_intros(2))
  show ?case
    by (rule exI [of _ "row # rows"]) (simp add: t r broadcast_all_open)
qed

text \<open>
  Claim C6. Whatever connections there are and whichever of them fail to carry a frame
  (\<open>link_ok\<close>), a tick inserts its record, the broadcast reaches every OPEN connection in
  turn, a failed send being a lost frame and nothing more, and the callback returns
  without an exception; so the timer goes on, and after any number of further ticks all
  their records are in the store.
\<close>

theorem broadcast_failures_not_fatal:
  assumes "double_mul fmul" and "valid_draws inp" and "\<forall>i \<in> set inps. valid_draws i"
  shows "(\<exists>row. tick fmul inp d =
            (d\<lparr>traffic_logs := traffic_logs d @ [row]\<rparr>,
             Inr (map (\<lambda>c. if link_ok c
                            then Delivered (client_id c)
                                   (TRAFFIC_UPDATE (row\<lparr>timestamp := js_now inp\<rparr>))
                            else Lost (client_id c)
                                   (TRAFFIC_UPDATE (row\<lparr>timestamp := js_now inp\<rparr>)))
                    (filter (\<lambda>c. readyState c = OPEN) (clients inp))))) \<and>
         (\<exists>rows evss. run_ticks fmul (inp # inps) d =
            (d\<lparr>traffic_logs := traffic_logs d @ rows\<rparr>, Inr evss) \<and>
            length rows = Suc (length inps) \<and> length evss = Suc (length inps))"
proof -
  have a: "\<exists>row. tick fmul inp d =
            (d\<lparr>traffic_logs := traffic_logs d @ [row]\<rparr>,
             Inr (map (\<lambda>c. if link_ok c
                            then Delivered (client_id c)
                                   (TRAFFIC_UPDATE (row\<lparr>timestamp := js_now inp\<rparr>))
                            else Lost (client_id c)
                                   (TRAFFIC_UPDATE (row\<lparr>timestamp := js_now inp\<rparr>)))
                    (filter (\<lambda>c. readyState c = OPEN) (clients inp))))"
    using tick_valid [OF assms(1,2), of d] by (auto simp: broadcast_all_open)
  have "\<forall>i \<in> set (inp # inps). valid_draws i"
    using assms(2,3) by simp
  from run_ticks_valid [OF assms(1) this, of d] have
    b: "\<exists>rows evss. run_ticks fmul (inp # inps) d =
            (d\<lparr>traffic_logs := traffic_logs d @ rows\<rparr>, Inr evss) \<and>
            length rows = Suc (length inps) \<and> length evss = Suc (length inps)"
    by simp
  from a b show ?thesis by blast
qed

theorem broadcast_failures_not_fatal_witness:
  "double_mul (\<lambda>x y. x * y) \<and> valid_draws demo_input \<and>
   (\<exists>row. snd (tick (\<lambda>x y. x * y) demo_input demo_db) =
      Inr [Lost 1 (TRAFFIC_UPDATE row), Delivered 3 (TRAFFIC_UPDATE row)]) \<and>
   length (traffic_logs (fst (tick (\<lambda>x y. x * y) demo_input demo_db))) = 5 \<and>
   (\<exists>evss. snd (run_ticks (\<lambda>x y. x * y) [demo_input, demo_input] demo_db) = Inr evss) \<and>
   length (traffic_logs (fst (run_ticks (\<lambda>x y. x * y) [demo_input, demo_input] demo_db))) = 6"
proof -
  have v: "\<forall>i \<in> set [demo_input]. valid_draws i"
    by (simp add: valid_draws_demo)
  note w = broadcast_failures_not_fatal [OF double_mul_exact valid_draws_demo v, of demo_db]
  from w obtain row where
    t: "tick (\<lambda>x y. x * y) demo_input demo_db =
          (demo_db\<lparr>traffic_logs := traffic_logs demo_db @ [row]\<rparr>,
           Inr (map (\<lambda>c. if link_ok c
                          then Delivered (client_id c)
                                 (TRAFFIC_UPDATE (row\<lparr>timestamp := js_now demo_input\<rparr>))
                          else Lost (client_id c)
                                 (TRAFFIC_UPDATE (row\<lparr>timestamp := js_now demo_input\<rparr>)))
                  (filter (\<lambda>c. readyState c = OPEN) (clients demo_input))))"
    by blast
  have c: "clients demo_input = demo_clients"
    by (simp add: demo_input_def)
  have l: "length (traffic_logs demo_db) = 4"
    by (simp add: demo_db_def demo_logs_def)
  have a: "\<exists>row. snd (tick (\<lambda>x y. x * y) demo_input demo_db) =
      Inr [Lost 1 (TRAFFIC_UPDATE row), Delivered 3 (TRAFFIC_UPDATE row)]"
    by (rule exI [of _ "row\<lparr>timestamp := js_now demo_input\<rparr>"])
       (simp add: t c demo_clients_def)
  have b: "length (traffic_logs (fst (tick (\<lambda>x y. x * y) demo_input demo_db))) = 5"
    by (simp add: t l)
  from w obtain rows evss where
    r: "run_ticks (\<lambda>x y. x * y) [demo_input, demo_input] demo_db =
          (demo_db\<lparr>traffic_logs := traffic_logs demo_db @ rows\<rparr>, Inr evss)"
      "length rows = Suc (length [demo_input])"
    by blast
  from a b r l double_mul_exact valid_draws_demo show ?thesis by simp
qed

section \<open>The invariant of the store\<close>

lemma app_traffic_logs: "traffic_logs (snd (app ext secret e req d)) = traffic_logs d"
  by (cases "call req")
     (auto simp: app_def signup_def login_def authenticate_def traffic_summary_def
        traffic_history_def get_settings_def post_settings_def
        split: option.splits sum.splits js_value.splits)

lemma app_settings_ok: "settings_ok d \<Longrightarrow> settings_ok (snd (app ext secret e req d))"
  by (cases "call req")
     (auto simp: app_def signup_def login_def authenticate_def traffic_summary_def
        traffic_history_def get_settings_def post_settings_def settings_ok_def
        split: option.splits sum.splits js_value.splits)

lemma tick_settings: "settings (fst (tick fmul inp d)) = settings d"
  using tick_store [of fmul inp d] by auto

lemma tick_traffic_logs:
  "traffic_logs (fst (tick fmul inp d)) = traffic_logs d \<or>
   (\<exists>row. traffic_logs (fst (tick fmul inp d)) = traffic_logs d @ [row])"
  using tick_store [of fmul inp d] by auto

lemma step_invariant:
  assumes "settings_ok d"
  shows "settings_ok (step ext secret fmul op d) \<and>
         (traffic_logs (step ext secret fmul op d) = traffic_logs d \<or>
          (\<exists>row. traffic_logs (step ext secret fmul op d) = traffic_logs d @ [row]))"
proof (cases op)
  case (Request e req)
  then show ?thesis
    using assms by (simp add: step_def app_traffic_logs app_settings_ok)
next
  case (Tick inp)
  have "settings_ok (fst (tick fmul inp d))"
    using assms by (simp add: settings_ok_def tick_settings)
  then show ?thesis
    using Tick tick_traffic_logs [of fmul inp d] by (simp add: step_def)
qed

lemma run_invariant:
  "settings_ok d \<Longrightarrow>
   settings_ok (run ext secret fmul ops d) \<and>
   prefix (traffic_logs d) (traffic_logs (run ext secret fmul ops d))"
proof (induction ops arbitrary: d)
  case Nil
  then show ?case by (simp add: run_def)
next
  case (Cons op ops)
  let ?d = "step ext secret fmul op d"
  have s: "settings_ok ?d" and p: "prefix (traffic_logs d) (traffic_logs ?d)"
    using step_invariant [OF Cons.prems, of ext secret fmul op] by auto
  have "settings_ok (run ext secret fmul ops ?d) \<and>
        prefix (traffic_logs ?d) (traffic_logs (run ext secret fmul ops ?d))"
    using s by (rule Cons.IH)
  moreover have "run ext secret fmul (op # ops) d = run ext secret fmul ops ?d"
    by (simp add: run_def)
  ultimately show ?case
    using p by (auto intro: prefix_order.trans)
qed

text \<open>
  Claim C8. The store that the initialisation makes from an empty database has exactly
  one settings row, with id 1. On a store with that property the initialisation changes
  nothing, and every operation (any request to the application, any tick) keeps the
  property, leaves every traffic record where and as it was, and adds at most one record
  at the end; the same holds after any sequence of operations.
\<close>

theorem store_invariant:
  "settings_ok (db_init empty_db) \<and>
   (settings_ok d \<longrightarrow>
      db_init d = d \<and>
      settings_ok (step ext secret fmul op d) \<and>
      (traffic_logs (step ext secret fmul op d) = traffic_logs d \<or>
       (\<exists>row. traffic_logs (step ext secret fmul op d) = traffic_logs d @ [row])) \<and>
      (\<forall>i < length (traffic_logs d).
         traffic_logs (step ext secret fmul op d) ! i = traffic_logs d ! i) \<and>
      settings_ok (run ext secret fmul ops d) \<and>
      prefix (traffic_logs d) (traffic_logs (run ext secret fmul ops d)))"
proof (intro conjI impI)
  show "settings_ok (db_init empty_db)"
    by (simp add: settings_ok_def db_init_def empty_db_def)
next
  assume ok: "settings_ok d"
  then show "db_init d = d"
    by (auto simp: settings_ok_def db_init_def)
  note s = step_invariant [OF ok, of ext secret fmul op]
  from s show "settings_ok (step ext secret fmul op d)" by blast
  from s show "traffic_logs (step ext secret fmul op d) = traffic_logs d \<or>
       (\<exists>row. traffic_logs (step ext secret fmul op d) = traffic_logs d @ [row])"
    by blast
  from s show "\<forall>i < length (traffic_logs d).
         traffic_logs (step ext secret fmul op d) ! i = traffic_logs d ! i"
    by (auto simp: nth_append)
  from run_invariant [OF ok, of ext secret fmul ops]
  show "settings_ok (run ext secret fmul ops d)"
    and "prefix (traffic_logs d) (traffic_logs (run ext secret fmul ops d))"
    by blast+
qed

theorem store_invariant_witness:
  "settings_ok demo_db \<and>
   settings_ok (run demo_ext ''smart-traffic-secret'' (\<lambda>x y. x * y)
     [Tick demo_input,
      Request demo_env (demo_request (Some ''Bearer header.payload.signature'')
        (PostSettings (JNum 50) (JBool False)))] demo_db) \<and>
   prefix demo_logs
     (traffic_logs (run demo_ext ''smart-traffic-secret'' (\<lambda>x y. x * y)
       [Tick demo_input,
        Request demo_env (demo_request (Some ''Bearer header.payload.signature'')
          (PostSettings (JNum 50) (JBool False)))] demo_db))"
proof -
  have tl: "traffic_logs demo_db = demo_logs"
    by (simp add: demo_db_def)
  show ?thesis
    using demo_settings_ok
      store_invariant [of demo_db demo_ext "''smart-traffic-secret''" "\<lambda>x y. x * y"
        "Tick demo_input"
        "[Tick demo_input,
          Request demo_env (demo_request (Some ''Bearer header.payload.signature'')
            (PostSettings (JNum 50) (JBool False)))]"]
    unfolding tl by blast
qed

end
